theory Spec2Isabelle
  imports Complex_Main "HOL-Library.AList"
begin

section \<open>Hybrid recommendation engine (build-ml-model.py)\<close>

text \<open>
  A shallow embedding of \<^verbatim>\<open>DataProcessor\<close>, \<^verbatim>\<open>CollaborativeFilteringModel\<close>,
  \<^verbatim>\<open>ContentBasedModel\<close> and \<^verbatim>\<open>HybridRecommendationEngine\<close>.
  Python floats are modelled as reals (no NaN, no infinity). The two scorers of the
  collaborative filtering model take their additions and dot products as parameters, so
  that what is proved of them holds for rounded arithmetic too; everywhere else the
  arithmetic is exact. Python ints are modelled as
  \<open>int\<close> where a caller supplies them and as \<open>nat\<close> where the code produces them
  with \<^verbatim>\<open>enumerate\<close>. A Python dict is an association list in insertion order.
  Every raise of the source is a value \<open>Inl e\<close>.
\<close>

subsection \<open>Errors and Python primitives\<close>

datatype error =
    UntrainedModelError  \<comment> \<open>\<^verbatim>\<open>ValueError("Model must be trained before ...")\<close>\<close>
  | IndexError           \<comment> \<open>numpy index out of bounds\<close>
  | KeyError             \<comment> \<open>missing dict key\<close>
  | ShapeError           \<comment> \<open>numpy \<^verbatim>\<open>ValueError\<close>: operands of different shapes\<close>
  | TypeError            \<comment> \<open>\<^verbatim>\<open>len(None)\<close> on a sub-model that was never fitted\<close>
  | AttributeError       \<comment> \<open>an attribute of \<^verbatim>\<open>None\<close>: a field no training run has assigned\<close>
  | FitError             \<comment> \<open>any exception raised inside a library fit\<close>

text \<open>\<^verbatim>\<open>xs[i]\<close> on a list or numpy array: a negative index counts from the end.\<close>

definition py_index :: "'a list \<Rightarrow> int \<Rightarrow> error + 'a" where
  "py_index xs i =
     (let n = int (length xs) in
      if 0 \<le> i \<and> i < n then Inr (xs ! nat i)
      else if - n \<le> i \<and> i < 0 then Inr (xs ! nat (n + i))
      else Inl IndexError)"

text \<open>\<^verbatim>\<open>xs[:n]\<close>: a negative bound drops elements from the end.\<close>

definition py_take :: "int \<Rightarrow> 'a list \<Rightarrow> 'a list" where
  "py_take n xs =
     (if 0 \<le> n then take (nat n) xs else take (length xs - nat (- n)) xs)"

text \<open>\<^verbatim>\<open>enumerate(xs)\<close>.\<close>

definition enumerate_py :: "'a list \<Rightarrow> (nat \<times> 'a) list" where
  "enumerate_py xs = zip [0..<length xs] xs"

text \<open>
  \<^verbatim>\<open>xs.sort(key=lambda x: x[1], reverse=True)\<close> is a stable descending sort;
  \<open>sort_key\<close> is a stable insertion sort, so sorting on the negated key gives it.
\<close>

definition sort_desc :: "('a \<Rightarrow> real) \<Rightarrow> 'a list \<Rightarrow> 'a list" where
  "sort_desc key xs = sort_key (\<lambda>x. - key x) xs"

text \<open>
  Floating-point arithmetic. The values are reals; an addition of two doubles and a dot
  product round their exact result in a way that is left open: \<open>fadd\<close> is the addition
  of two numbers, \<open>vdot\<close> is \<^verbatim>\<open>np.dot\<close> of two vectors, and \<open>mdot\<close> gives one entry
  of \<^verbatim>\<open>np.dot(matrix, vector)\<close> from the row of the matrix and the vector.
  \<open>exact_ops\<close> is the arithmetic without rounding.
\<close>

record float_ops =
  fadd :: "real \<Rightarrow> real \<Rightarrow> real"
  vdot :: "real list \<Rightarrow> real list \<Rightarrow> real"
  mdot :: "real list \<Rightarrow> real list \<Rightarrow> real"

definition exact_dot :: "real list \<Rightarrow> real list \<Rightarrow> real" where
  "exact_dot xs ys = sum_list (map2 (*) xs ys)"

definition exact_ops :: float_ops where
  "exact_ops = \<lparr>fadd = (+), vdot = exact_dot, mdot = exact_dot\<rparr>"

text \<open>\<^verbatim>\<open>np.dot\<close> of two vectors, one entry of \<^verbatim>\<open>np.dot\<close> of a matrix and a vector,
  and \<^verbatim>\<open>a += b\<close> on two vectors: numpy raises when the shapes differ.\<close>

definition np_dot_fp :: "float_ops \<Rightarrow> real list \<Rightarrow> real list \<Rightarrow> error + real" where
  "np_dot_fp ops xs ys =
     (if length xs = length ys then Inr (vdot ops xs ys) else Inl ShapeError)"

definition np_row_dot_fp :: "float_ops \<Rightarrow> real list \<Rightarrow> real list \<Rightarrow> error + real" where
  "np_row_dot_fp ops row v =
     (if length row = length v then Inr (mdot ops row v) else Inl ShapeError)"

definition np_add_fp :: "float_ops \<Rightarrow> real list \<Rightarrow> real list \<Rightarrow> error + real list" where
  "np_add_fp ops xs ys =
     (if length xs = length ys then Inr (map2 (fadd ops) xs ys) else Inl ShapeError)"

definition np_dot :: "real list \<Rightarrow> real list \<Rightarrow> error + real" where
  "np_dot = np_dot_fp exact_ops"

definition np_add :: "real list \<Rightarrow> real list \<Rightarrow> error + real list" where
  "np_add = np_add_fp exact_ops"

fun sequence_sum :: "('e + 'a) list \<Rightarrow> 'e + 'a list" where
  "sequence_sum [] = Inr []"
| "sequence_sum (x # xs) =
     (case x of Inl e \<Rightarrow> Inl e
      | Inr v \<Rightarrow> (case sequence_sum xs of Inl e \<Rightarrow> Inl e | Inr vs \<Rightarrow> Inr (v # vs)))"

text \<open>\<^verbatim>\<open>np.argsort(xs)\<close>, ascending. numpy leaves the order of ties open; the
  stable order is taken here and no theorem below depends on it.\<close>

definition np_argsort :: "real list \<Rightarrow> nat list" where
  "np_argsort xs = sort_key (\<lambda>i. xs ! i) [0..<length xs]"

subsection \<open>DataProcessor\<close>

record interaction =
  user_id :: string
  item_id :: string
  rating :: real

text \<open>A DataFrame of interactions: whether it has a \<^verbatim>\<open>rating\<close> column, and its rows.\<close>

record dataframe =
  has_rating :: bool
  rows :: "interaction list"

text \<open>A row after encoding; \<open>None\<close> is the NaN that \<^verbatim>\<open>Series.map\<close> leaves for a
  missing key.\<close>

record encoded = interaction +
  user_idx :: "nat option"
  item_idx :: "nat option"

record encoded_frame =
  ef_has_rating :: bool
  ef_rows :: "encoded list"

record data_processor =
  min_interactions :: int
  user_encoder :: "(string \<times> nat) list"
  item_encoder :: "(string \<times> nat) list"
  user_decoder :: "(nat \<times> string) list"
  item_decoder :: "(nat \<times> string) list"

definition DataProcessor_init :: "int \<Rightarrow> data_processor" where
  "DataProcessor_init m =
     \<lparr>min_interactions = m, user_encoder = [], item_encoder = [],
      user_decoder = [], item_decoder = []\<rparr>"

text \<open>\<^verbatim>\<open>drop_duplicates(['user_id', 'item_id'])\<close>: the first row of each pair is kept.\<close>

fun drop_duplicates_acc :: "(string \<times> string) list \<Rightarrow> interaction list \<Rightarrow> interaction list" where
  "drop_duplicates_acc seen [] = []"
| "drop_duplicates_acc seen (r # rs) =
     (if (user_id r, item_id r) \<in> set seen then drop_duplicates_acc seen rs
      else r # drop_duplicates_acc ((user_id r, item_id r) # seen) rs)"

definition drop_duplicates :: "interaction list \<Rightarrow> interaction list" where
  "drop_duplicates rs = drop_duplicates_acc [] rs"

text \<open>\<^verbatim>\<open>Series.unique()\<close>: the distinct values in order of first appearance.\<close>

fun unique_acc :: "'a list \<Rightarrow> 'a list \<Rightarrow> 'a list" where
  "unique_acc seen [] = []"
| "unique_acc seen (x # xs) =
     (if x \<in> set seen then unique_acc seen xs else x # unique_acc (x # seen) xs)"

definition pd_unique :: "'a list \<Rightarrow> 'a list" where
  "pd_unique xs = unique_acc [] xs"

text \<open>\<^verbatim>\<open>Series.value_counts()\<close> as a table from value to count, and the index of
  \<^verbatim>\<open>counts[counts >= m]\<close>.\<close>

definition value_counts :: "string list \<Rightarrow> (string \<times> int) list" where
  "value_counts xs = map (\<lambda>v. (v, int (count_list xs v))) (pd_unique xs)"

definition valid_index :: "int \<Rightarrow> (string \<times> int) list \<Rightarrow> string list" where
  "valid_index m counts = map fst (filter (\<lambda>(v, c). c \<ge> m) counts)"

definition filter_interactions :: "int \<Rightarrow> interaction list \<Rightarrow> interaction list" where
  "filter_interactions m df =
     (let user_counts = value_counts (map user_id df);
          item_counts = value_counts (map item_id df);
          valid_users = valid_index m user_counts;
          valid_items = valid_index m item_counts
      in filter (\<lambda>r. user_id r \<in> set valid_users \<and> item_id r \<in> set valid_items) df)"

definition make_encoder :: "string list \<Rightarrow> (string \<times> nat) list" where
  "make_encoder uniq = map (\<lambda>(idx, v). (v, idx)) (enumerate_py uniq)"

definition make_decoder :: "(string \<times> nat) list \<Rightarrow> (nat \<times> string) list" where
  "make_decoder enc = map (\<lambda>(v, idx). (idx, v)) enc"

definition encode_row :: "data_processor \<Rightarrow> interaction \<Rightarrow> encoded" where
  "encode_row dp r =
     interaction.extend r
       \<lparr>user_idx = map_of (user_encoder dp) (user_id r),
        item_idx = map_of (item_encoder dp) (item_id r)\<rparr>"

definition preprocess_interactions ::
  "data_processor \<Rightarrow> dataframe \<Rightarrow> data_processor \<times> encoded_frame" where
  "preprocess_interactions dp interactions_df =
     (let deduped = drop_duplicates (rows interactions_df);
          kept = filter_interactions (min_interactions dp) deduped;
          unique_users = pd_unique (map user_id kept);
          unique_items = pd_unique (map item_id kept);
          dp1 = dp\<lparr>user_encoder := make_encoder unique_users,
                   item_encoder := make_encoder unique_items\<rparr>;
          dp2 = dp1\<lparr>user_decoder := make_decoder (user_encoder dp1),
                    item_decoder := make_decoder (item_encoder dp1)\<rparr>
      in (dp2, \<lparr>ef_has_rating = has_rating interactions_df,
                ef_rows = map (encode_row dp2) kept\<rparr>))"

text \<open>A sparse matrix: its shape and its stored (row, column, value) triples.\<close>

record csr_matrix =
  n_rows :: nat
  n_cols :: nat
  entries :: "(nat \<times> nat \<times> real) list"

fun matrix_entry :: "bool \<Rightarrow> encoded \<Rightarrow> error + (nat \<times> nat \<times> real)" where
  "matrix_entry hr r =
     (case (user_idx r, item_idx r) of
        (Some u, Some i) \<Rightarrow> Inr (u, i, if hr then rating r else 1)
      | _ \<Rightarrow> Inl ShapeError)"

definition create_interaction_matrix :: "data_processor \<Rightarrow> encoded_frame \<Rightarrow> error + csr_matrix" where
  "create_interaction_matrix dp interactions_df =
     (let n_users = length (user_encoder dp);
          n_items = length (item_encoder dp)
      in case sequence_sum (map (matrix_entry (ef_has_rating interactions_df))
                                (ef_rows interactions_df)) of
           Inl e \<Rightarrow> Inl e
         | Inr es \<Rightarrow>
             if \<forall>(u, i, v) \<in> set es. u < n_users \<and> i < n_items
             then Inr \<lparr>n_rows = n_users, n_cols = n_items, entries = es\<rparr>
             else Inl ShapeError)"

text \<open>\<^verbatim>\<open>np.array(m.sum(axis=0)).flatten()\<close>: the sum of every column.\<close>

definition column_sums :: "csr_matrix \<Rightarrow> real list" where
  "column_sums m =
     map (\<lambda>j. sum_list (map (\<lambda>(u, i, v). v) (filter (\<lambda>(u, i, v). i = j) (entries m))))
         [0..<n_cols m]"

subsection \<open>CollaborativeFilteringModel\<close>

text \<open>The fields of a model after \<^verbatim>\<open>fit\<close>; the factor matrices are lists of rows.\<close>

record cf_model =
  user_factors :: "real list list"
  item_factors :: "real list list"
  global_mean :: real
  user_biases :: "real list"
  item_biases :: "real list"

text \<open>What \<^verbatim>\<open>fit\<close> establishes: one bias per factor row, and all factor rows
  of one width (the number of components).\<close>

definition fitted :: "cf_model \<Rightarrow> bool" where
  "fitted m \<longleftrightarrow>
     length (user_biases m) = length (user_factors m) \<and>
     length (item_biases m) = length (item_factors m) \<and>
     (\<forall>r \<in> set (user_factors m). \<forall>c \<in> set (item_factors m). length r = length c)"

definition bind_sum :: "'e + 'a \<Rightarrow> ('a \<Rightarrow> 'e + 'b) \<Rightarrow> 'e + 'b" where
  "bind_sum x f = (case x of Inl e \<Rightarrow> Inl e | Inr v \<Rightarrow> f v)"

text \<open>
  \<^verbatim>\<open>predict\<close>: the sum is accumulated from the left, as Python evaluates
  \<^verbatim>\<open>global_mean + user_biases[u] + item_biases[i] + np.dot(...)\<close>.
\<close>

definition predict_fp :: "float_ops \<Rightarrow> cf_model \<Rightarrow> int \<Rightarrow> int \<Rightarrow> error + real" where
  "predict_fp ops m u i =
     (if u \<ge> int (length (user_factors m)) \<or> i \<ge> int (length (item_factors m))
      then Inr (global_mean m)
      else
        bind_sum (py_index (user_biases m) u) (\<lambda>bu.
        bind_sum (py_index (item_biases m) i) (\<lambda>bi.
        bind_sum (py_index (user_factors m) u) (\<lambda>fu.
        bind_sum (py_index (item_factors m) i) (\<lambda>fi.
        bind_sum (np_dot_fp ops fu fi) (\<lambda>d.
          let prediction = fadd ops (fadd ops (fadd ops (global_mean m) bu) bi) d
          in Inr (max 0 (min 5 prediction))))))))"

text \<open>
  \<^verbatim>\<open>get_user_recommendations\<close>: the scores start as the matrix-vector product, then
  \<^verbatim>\<open>scores += item_biases\<close>, then \<^verbatim>\<open>scores += user_biases[u] + global_mean\<close>, where
  the right-hand side is added up first.
\<close>

definition get_user_recommendations_fp ::
  "float_ops \<Rightarrow> cf_model \<Rightarrow> int \<Rightarrow> int \<Rightarrow> nat set \<Rightarrow> error + (nat \<times> real) list" where
  "get_user_recommendations_fp ops m u n_recommendations exclude_seen =
     (if u \<ge> int (length (user_factors m)) then Inr []
      else
        bind_sum (py_index (user_factors m) u) (\<lambda>user_vector.
        bind_sum (sequence_sum (map (\<lambda>row. np_row_dot_fp ops row user_vector)
                                    (item_factors m))) (\<lambda>scores0.
        bind_sum (np_add_fp ops scores0 (item_biases m)) (\<lambda>scores1.
        bind_sum (py_index (user_biases m) u) (\<lambda>bu.
          let scores = map (\<lambda>s. fadd ops s (fadd ops bu (global_mean m))) scores1;
              item_scores = filter (\<lambda>(idx, score). idx \<notin> exclude_seen) (enumerate_py scores)
          in Inr (py_take n_recommendations (sort_desc snd item_scores)))))))"

text \<open>The two operations in exact arithmetic.\<close>

definition predict :: "cf_model \<Rightarrow> int \<Rightarrow> int \<Rightarrow> error + real" where
  "predict = predict_fp exact_ops"

definition get_user_recommendations ::
  "cf_model \<Rightarrow> int \<Rightarrow> int \<Rightarrow> nat set \<Rightarrow> error + (nat \<times> real) list" where
  "get_user_recommendations = get_user_recommendations_fp exact_ops"

subsection \<open>ContentBasedModel\<close>

record cb_model =
  item_similarity_matrix :: "real list list"

definition get_similar_items :: "cb_model \<Rightarrow> int \<Rightarrow> int \<Rightarrow> error + (nat \<times> real) list" where
  "get_similar_items m i n_similar =
     (if i \<ge> int (length (item_similarity_matrix m)) then Inr []
      else
        bind_sum (py_index (item_similarity_matrix m) i) (\<lambda>similarities.
          let similar_items = filter (\<lambda>(idx, sim). int idx \<noteq> i) (enumerate_py similarities)
          in Inr (py_take n_similar (sort_desc snd similar_items))))"

subsection \<open>HybridRecommendationEngine\<close>

record engine =
  cf_weight :: real
  cb_weight :: real
  data_processor :: data_processor
  cf_model :: "cf_model option"
  cb_model :: "cb_model option"
  interaction_matrix :: "csr_matrix option"
  user_item_interactions :: "nat \<rightharpoonup> nat set"
  is_trained :: bool

text \<open>\<^verbatim>\<open>__init__\<close>: the processor is built with its default threshold of 5.\<close>

definition engine_init :: "real \<Rightarrow> real \<Rightarrow> engine" where
  "engine_init cfw cbw =
     \<lparr>cf_weight = cfw, cb_weight = cbw, data_processor = DataProcessor_init 5,
      cf_model = None, cb_model = None, interaction_matrix = None,
      user_item_interactions = Map.empty, is_trained = False\<rparr>"

text \<open>
  The loop of \<^verbatim>\<open>train\<close> over the cleaned rows. It starts from the dictionary the
  engine already holds: \<^verbatim>\<open>train\<close> never assigns a new one. A row with a NaN index
  cannot reach the loop, \<^verbatim>\<open>create_interaction_matrix\<close> has raised before.
\<close>

definition store_row :: "encoded \<Rightarrow> (nat \<rightharpoonup> nat set) \<Rightarrow> (nat \<rightharpoonup> nat set)" where
  "store_row r d =
     (case (user_idx r, item_idx r) of
        (Some u, Some i) \<Rightarrow> d(u \<mapsto> insert i (case d u of None \<Rightarrow> {} | Some S \<Rightarrow> S))
      | _ \<Rightarrow> d)"

definition store_interactions :: "(nat \<rightharpoonup> nat set) \<Rightarrow> encoded list \<Rightarrow> (nat \<rightharpoonup> nat set)" where
  "store_interactions d rs = fold store_row rs d"

text \<open>
  \<^verbatim>\<open>train\<close>. The two library fits (\<^verbatim>\<open>TruncatedSVD\<close>, \<^verbatim>\<open>TfidfVectorizer\<close> and
  \<^verbatim>\<open>cosine_similarity\<close>) are parameters that return the fitted sub-model or raise.
  The except clause logs and re-raises, so the result is the state the engine is left
  in together with the exception, if any.
\<close>

definition train ::
  "(csr_matrix \<Rightarrow> error + cf_model) \<Rightarrow> ('items \<Rightarrow> string list \<Rightarrow> error + cb_model) \<Rightarrow>
   engine \<Rightarrow> dataframe \<Rightarrow> 'items \<Rightarrow> string list \<Rightarrow> engine \<times> error option" where
  "train cf_fit cb_fit s interactions_df items_df content_features =
     (let (dp, interactions_clean) = preprocess_interactions (data_processor s) interactions_df;
          s1 = s\<lparr>data_processor := dp\<rparr>
      in case create_interaction_matrix dp interactions_clean of
           Inl e \<Rightarrow> (s1, Some e)
         | Inr mat \<Rightarrow>
             let s2 = s1\<lparr>interaction_matrix := Some mat\<rparr>;
                 s3 = s2\<lparr>user_item_interactions :=
                          store_interactions (user_item_interactions s2)
                            (ef_rows interactions_clean)\<rparr>
             in case cf_fit mat of
                  Inl e \<Rightarrow> (s3, Some e)
                | Inr cf \<Rightarrow>
                    let s4 = s3\<lparr>cf_model := Some cf\<rparr>
                    in case cb_fit items_df content_features of
                         Inl e \<Rightarrow> (s4, Some e)
                       | Inr cb \<Rightarrow>
                           let s5 = s4\<lparr>cb_model := Some cb\<rparr>;
                               s6 = s5\<lparr>is_trained := True\<rparr>
                           in (s6, None))"

record recommendation =
  rec_item_id :: string
  score :: real
  cf_score :: real
  cb_score :: real
  rec_method :: string

text \<open>\<^verbatim>\<open>{k: v for k, v in xs}\<close> and \<^verbatim>\<open>d.get(k, 0)\<close>.\<close>

definition dict_of :: "(nat \<times> real) list \<Rightarrow> (nat \<times> real) list" where
  "dict_of xs = fold (\<lambda>(k, v) d. AList.update k v d) xs []"

definition dict_get0 :: "(nat \<times> real) list \<Rightarrow> nat \<Rightarrow> real" where
  "dict_get0 d k = (case map_of d k of None \<Rightarrow> 0 | Some v \<Rightarrow> v)"

text \<open>The inner loop over the items similar to one seen item.\<close>

definition cb_accumulate :: "nat set \<Rightarrow> (nat \<times> real) list \<Rightarrow> (nat \<times> real) list \<Rightarrow> (nat \<times> real) list" where
  "cb_accumulate seen_items similar_items cb_scores =
     fold (\<lambda>(idx, similarity) d.
             if idx \<notin> seen_items then AList.update idx (dict_get0 d idx + similarity) d else d)
          similar_items cb_scores"

text \<open>The outer loop over \<^verbatim>\<open>list(seen_items)[:5]\<close>. The order in which Python
  iterates a set is an implementation detail; ascending order is taken here.\<close>

fun cb_loop :: "cb_model \<Rightarrow> nat set \<Rightarrow> nat list \<Rightarrow> (nat \<times> real) list \<Rightarrow> error + (nat \<times> real) list" where
  "cb_loop cb seen_items [] cb_scores = Inr cb_scores"
| "cb_loop cb seen_items (seen_item # rest) cb_scores =
     bind_sum (get_similar_items cb (int seen_item) 20) (\<lambda>similar_items.
       cb_loop cb seen_items rest (cb_accumulate seen_items similar_items cb_scores))"

definition cb_candidates :: "cb_model option \<Rightarrow> nat set \<Rightarrow> error + (nat \<times> real) list" where
  "cb_candidates cbo seen_items =
     (if seen_items = {} then Inr []
      else case take 5 (sorted_list_of_set seen_items) of
             [] \<Rightarrow> Inr []
           | seeds \<Rightarrow>
               (case cbo of None \<Rightarrow> Inl AttributeError
                | Some cb \<Rightarrow> cb_loop cb seen_items seeds []))"

definition cf_candidates :: "cf_model option \<Rightarrow> nat \<Rightarrow> int \<Rightarrow> nat set \<Rightarrow> error + (nat \<times> real) list" where
  "cf_candidates cfo u n seen_items =
     (case cfo of None \<Rightarrow> Inl TypeError
      | Some cf \<Rightarrow> get_user_recommendations cf (int u) (n * 2) seen_items)"

definition hybrid_row :: "real \<Rightarrow> real \<Rightarrow> (nat \<times> real) list \<Rightarrow> (nat \<times> real) list \<Rightarrow> nat \<Rightarrow>
    nat \<times> real \<times> real \<times> real" where
  "hybrid_row cfw cbw cf_scores cb_scores idx =
     (let cf = dict_get0 cf_scores idx;
          cb = dict_get0 cb_scores idx;
          hybrid_score = cfw * cf + cbw * cb
      in (idx, hybrid_score, cf, cb))"

definition hybrid_scores :: "real \<Rightarrow> real \<Rightarrow> (nat \<times> real) list \<Rightarrow> (nat \<times> real) list \<Rightarrow>
    (nat \<times> real \<times> real \<times> real) list" where
  "hybrid_scores cfw cbw cf_scores cb_scores =
     (let all_items = sorted_list_of_set (set (map fst cf_scores) \<union> set (map fst cb_scores))
      in sort_desc (\<lambda>x. fst (snd x)) (map (hybrid_row cfw cbw cf_scores cb_scores) all_items))"

fun format_hybrid :: "data_processor \<Rightarrow> nat \<times> real \<times> real \<times> real \<Rightarrow> error + recommendation" where
  "format_hybrid dp (idx, hybrid_score, cf, cb) =
     (case map_of (item_decoder dp) idx of
        None \<Rightarrow> Inl KeyError
      | Some iid \<Rightarrow>
          Inr \<lparr>rec_item_id = iid, score = hybrid_score, cf_score = cf, cb_score = cb,
               rec_method = ''hybrid''\<rparr>)"

definition format_popular :: "data_processor \<Rightarrow> real list \<Rightarrow> nat \<Rightarrow> error + recommendation" where
  "format_popular dp item_popularity idx =
     (case map_of (item_decoder dp) idx of
        None \<Rightarrow> Inl KeyError
      | Some iid \<Rightarrow>
          Inr \<lparr>rec_item_id = iid, score = item_popularity ! idx, cf_score = 0, cb_score = 0,
               rec_method = ''popular''\<rparr>)"

text \<open>\<^verbatim>\<open>_get_popular_items\<close>. The indices come from \<^verbatim>\<open>argsort\<close>, so
  \<^verbatim>\<open>item_popularity[item_idx]\<close> is in range.\<close>

definition get_popular_items :: "engine \<Rightarrow> int \<Rightarrow> error + recommendation list" where
  "get_popular_items s n_items =
     (case interaction_matrix s of
        None \<Rightarrow> Inl AttributeError
      | Some mat \<Rightarrow>
          let item_popularity = column_sums mat;
              popular_items = py_take n_items (rev (np_argsort item_popularity))
          in sequence_sum (map (format_popular (data_processor s) item_popularity) popular_items))"

definition seen_of :: "engine \<Rightarrow> nat \<Rightarrow> nat set" where
  "seen_of s u = (case user_item_interactions s u of None \<Rightarrow> {} | Some S \<Rightarrow> S)"

definition get_recommendations :: "engine \<Rightarrow> string \<Rightarrow> int \<Rightarrow> error + recommendation list" where
  "get_recommendations s uid n_recommendations =
     (if \<not> is_trained s then Inl UntrainedModelError
      else case map_of (user_encoder (data_processor s)) uid of
        Some u \<Rightarrow>
          let seen_items = seen_of s u in
          bind_sum (cf_candidates (cf_model s) u n_recommendations seen_items) (\<lambda>cf_recs.
          let cf_scores = dict_of cf_recs in
          bind_sum (cb_candidates (cb_model s) seen_items) (\<lambda>cb_scores.
            sequence_sum
              (map (format_hybrid (data_processor s))
                   (py_take n_recommendations
                      (hybrid_scores (cf_weight s) (cb_weight s) cf_scores cb_scores)))))
      | None \<Rightarrow> get_popular_items s n_recommendations)"

datatype pyfloat = Finite real | PosInf

record metrics =
  rmse :: pyfloat
  mae :: pyfloat

text \<open>The rows of the test set that survive the \<^verbatim>\<open>isin\<close> filters.\<close>

definition test_clean :: "engine \<Rightarrow> dataframe \<Rightarrow> interaction list" where
  "test_clean s test_interactions =
     filter (\<lambda>r. user_id r \<in> set (map fst (user_encoder (data_processor s))) \<and>
                 item_id r \<in> set (map fst (item_encoder (data_processor s))))
            (rows test_interactions)"

text \<open>One pass of the loop: the prediction and the actual value of a row.
  A NaN index would be refused by numpy.\<close>

definition evaluate_row :: "engine \<Rightarrow> bool \<Rightarrow> interaction \<Rightarrow> error + (real \<times> real)" where
  "evaluate_row s hr r =
     (case (map_of (user_encoder (data_processor s)) (user_id r),
            map_of (item_encoder (data_processor s)) (item_id r)) of
        (Some u, Some i) \<Rightarrow>
          (case cf_model s of None \<Rightarrow> Inl TypeError
           | Some cf \<Rightarrow>
               bind_sum (predict cf (int u) (int i)) (\<lambda>pred.
                 Inr (pred, if hr then rating r else 1)))
      | _ \<Rightarrow> Inl IndexError)"

text \<open>Modelled from the spec: the last lines of \<^verbatim>\<open>evaluate\<close> after the loop are cut off in
  the source file (it ends inside the expression for \<^verbatim>\<open>mae\<close>); the spec says that the
  RMSE and the MAE of predictions versus actuals are computed and returned as
  \<^verbatim>\<open>{rmse, mae}\<close>.\<close>

definition metrics_of :: "(real \<times> real) list \<Rightarrow> metrics" where
  "metrics_of pairs =
     \<lparr>rmse = Finite (sqrt (sum_list (map (\<lambda>(p, a). (a - p)\<^sup>2) pairs) / real (length pairs))),
      mae = Finite (sum_list (map (\<lambda>(p, a). \<bar>a - p\<bar>) pairs) / real (length pairs))\<rparr>"

definition evaluate :: "engine \<Rightarrow> dataframe \<Rightarrow> error + metrics" where
  "evaluate s test_interactions =
     (if \<not> is_trained s then Inl UntrainedModelError
      else
        let kept = test_clean s test_interactions in
        if kept = [] then Inr \<lparr>rmse = PosInf, mae = PosInf\<rparr>
        else
          bind_sum (sequence_sum (map (evaluate_row s (has_rating test_interactions)) kept))
            (\<lambda>pairs. Inr (metrics_of pairs)))"

subsection \<open>Terms of the specification and test data\<close>

text \<open>The value \<^verbatim>\<open>prediction\<close> of \<^verbatim>\<open>predict\<close> before it is clamped, for indices
  in range.\<close>

definition raw_prediction :: "cf_model \<Rightarrow> nat \<Rightarrow> nat \<Rightarrow> real" where
  "raw_prediction m u i =
     global_mean m + user_biases m ! u + item_biases m ! i
       + sum_list (map2 (*) (user_factors m ! u) (item_factors m ! i))"

text \<open>
  The two sums as the specification of the scorers names them, with the order in which
  each is accumulated: the value that \<^verbatim>\<open>predict\<close> clamps, and the score of the batch
  scorer.
\<close>

definition predict_sum :: "float_ops \<Rightarrow> cf_model \<Rightarrow> nat \<Rightarrow> nat \<Rightarrow> real" where
  "predict_sum ops m u i =
     fadd ops (fadd ops (fadd ops (global_mean m) (user_biases m ! u)) (item_biases m ! i))
              (vdot ops (user_factors m ! u) (item_factors m ! i))"

definition batch_sum :: "float_ops \<Rightarrow> cf_model \<Rightarrow> nat \<Rightarrow> nat \<Rightarrow> real" where
  "batch_sum ops m u i =
     fadd ops (fadd ops (mdot ops (item_factors m ! i) (user_factors m ! u)) (item_biases m ! i))
              (fadd ops (user_biases m ! u) (global_mean m))"

text \<open>A model fitted on the single rating 4: one user, one item, one component.\<close>

definition cf1 :: cf_model where
  "cf1 = \<lparr>user_factors = [[4]], item_factors = [[1]], global_mean = 4,
          user_biases = [0], item_biases = [0]\<rparr>"

definition cb1 :: cb_model where
  "cb1 = \<lparr>item_similarity_matrix = [[1]]\<rparr>"

text \<open>The filtered, deduplicated interaction data of \<^verbatim>\<open>preprocess_interactions\<close>.\<close>

definition kept_rows :: "data_processor \<Rightarrow> dataframe \<Rightarrow> interaction list" where
  "kept_rows dp df = filter_interactions (min_interactions dp) (drop_duplicates (rows df))"

text \<open>The position at which a value first occurs in a column.\<close>

definition first_occurrence :: "'a list \<Rightarrow> 'a \<Rightarrow> nat" where
  "first_occurrence xs a = length (takeWhile (\<lambda>y. y \<noteq> a) xs)"

text \<open>
  The specification of an encoder over a column \<open>xs\<close>, in the words of the
  specification: its keys are the distinct values of the column, its indices are exactly
  \<open>0, ..., n - 1\<close> for \<open>n\<close> distinct values, each once (a bijection onto that range), and
  a value that occurs first gets the smaller index.
\<close>

definition first_occurrence_encoding :: "(string \<times> nat) list \<Rightarrow> string list \<Rightarrow> bool" where
  "first_occurrence_encoding enc xs \<longleftrightarrow>
     distinct (map fst enc) \<and> set (map fst enc) = set xs \<and>
     map snd enc = [0..<card (set xs)] \<and>
     bij_betw (\<lambda>a. the (map_of enc a)) (set xs) {0..<card (set xs)} \<and>
     (\<forall>a \<in> set xs. \<forall>b \<in> set xs.
        (the (map_of enc a) < the (map_of enc b))
          = (first_occurrence xs a < first_occurrence xs b))"

text \<open>Test data: the scenario of the specification, and two training runs for an
  engine with the default threshold of 5 interactions.\<close>

definition mk_row :: "string \<Rightarrow> string \<Rightarrow> real \<Rightarrow> interaction" where
  "mk_row u i v = \<lparr>user_id = u, item_id = i, rating = v\<rparr>"

definition scenario :: dataframe where
  "scenario = \<lparr>has_rating = True,
     rows = [mk_row ''u1'' ''i1'' 5, mk_row ''u1'' ''i2'' 3, mk_row ''u2'' ''i1'' 4, mk_row ''u2'' ''i3'' 2]\<rparr>"

definition grid :: "string list \<Rightarrow> string list \<Rightarrow> interaction list" where
  "grid us is = concat (map (\<lambda>u. map (\<lambda>i. mk_row u i 1) is) us)"

definition first_run :: dataframe where
  "first_run = \<lparr>has_rating = True,
     rows = grid [''a'', ''b'', ''c'', ''d'', ''e'', ''f''] [''p'', ''q'', ''r'', ''s'', ''t'']\<rparr>"

definition second_run :: dataframe where
  "second_run = \<lparr>has_rating = True,
     rows = grid [''a'', ''b'', ''c'', ''d'', ''e''] [''p'', ''q'', ''r'', ''s'', ''t'']
            @ grid [''f''] [''q'', ''r'', ''s'', ''t'', ''v'']\<rparr>"

definition cf_flat :: cf_model where
  "cf_flat = \<lparr>user_factors = replicate 6 [], item_factors = replicate 5 [], global_mean = 1,
              user_biases = replicate 6 0, item_biases = replicate 5 0\<rparr>"

definition cb_none :: cb_model where
  "cb_none = \<lparr>item_similarity_matrix = []\<rparr>"

text \<open>An engine trained on \<open>first_run\<close> and retrained on \<open>second_run\<close>, and a new
  engine trained on \<open>second_run\<close> only; both fits return the same sub-models in every
  run.\<close>

definition retrained :: engine where
  "retrained =
     fst (train (\<lambda>_. Inr cf_flat) (\<lambda>_ _. Inr cb_none)
            (fst (train (\<lambda>_. Inr cf_flat) (\<lambda>_ _. Inr cb_none) (engine_init (7/10) (3/10))
                    first_run () []))
            second_run () [])"

definition fresh :: engine where
  "fresh = fst (train (\<lambda>_. Inr cf_flat) (\<lambda>_ _. Inr cb_none) (engine_init (7/10) (3/10))
                  second_run () [])"

text \<open>The recommendation of item \<open>p\<close> that the new engine returns for user \<open>f\<close>.\<close>

definition rec_p :: recommendation where
  "rec_p = \<lparr>rec_item_id = ''p'', score = 7/10, cf_score = 1, cb_score = 0,
            rec_method = ''hybrid''\<rparr>"

text \<open>The record that \<^verbatim>\<open>_get_popular_items\<close> builds for an item index.\<close>

definition popular_rec :: "string list \<Rightarrow> real list \<Rightarrow> nat \<Rightarrow> recommendation" where
  "popular_rec its pop idx =
     \<lparr>rec_item_id = its ! idx, score = pop ! idx, cf_score = 0, cb_score = 0,
      rec_method = ''popular''\<rparr>"

text \<open>
  The evaluation in the words of the specification: the rows of the test set whose user
  and item are both in the trained encoders; for such a row the prediction of the latent
  factor model alone (clamped inside the fitted range, \<open>global_mean\<close> outside) and the
  actual value, which is the rating of the row if the test set has ratings and 1
  otherwise.
\<close>

definition cf_prediction :: "cf_model \<Rightarrow> nat \<Rightarrow> nat \<Rightarrow> real" where
  "cf_prediction cf u i =
     (if u < length (user_factors cf) \<and> i < length (item_factors cf)
      then max 0 (min 5 (raw_prediction cf u i)) else global_mean cf)"

definition known_rows :: "engine \<Rightarrow> dataframe \<Rightarrow> interaction list" where
  "known_rows s t =
     filter (\<lambda>r. map_of (user_encoder (data_processor s)) (user_id r) \<noteq> None \<and>
                 map_of (item_encoder (data_processor s)) (item_id r) \<noteq> None) (rows t)"

definition prediction_pair :: "engine \<Rightarrow> cf_model \<Rightarrow> dataframe \<Rightarrow> interaction \<Rightarrow> real \<times> real" where
  "prediction_pair s cf t r =
     (cf_prediction cf (the (map_of (user_encoder (data_processor s)) (user_id r)))
                       (the (map_of (item_encoder (data_processor s)) (item_id r))),
      if has_rating t then rating r else 1)"

text \<open>An engine with threshold 1 trained on the scenario of the specification; the
  biases are those of the scenario's ratings.\<close>

definition scenario_cf :: cf_model where
  "scenario_cf = \<lparr>user_factors = [[1], [2]], item_factors = [[1], [0], [1/2]],
                  global_mean = 7/2, user_biases = [1/2, - 1/2],
                  item_biases = [1, - 1/2, - 3/2]\<rparr>"

definition scenario_cb :: cb_model where
  "scenario_cb = \<lparr>item_similarity_matrix = [[1, 1/2, 0], [1/2, 1, 1/4], [0, 1/4, 1]]\<rparr>"

definition scenario_engine :: engine where
  "scenario_engine =
     fst (train (\<lambda>_. Inr scenario_cf) (\<lambda>_ _. Inr scenario_cb)
            ((engine_init (7/10) (3/10))\<lparr>data_processor := DataProcessor_init 1\<rparr>)
            scenario () [])"

text \<open>A test set that shares no (user, item) row with the scenario, and one without a
  rating column that shares one row.\<close>

definition test_unknown :: dataframe where
  "test_unknown = \<lparr>has_rating = True, rows = [mk_row ''u9'' ''i1'' 4, mk_row ''u1'' ''i9'' 2]\<rparr>"

definition test_known :: dataframe where
  "test_known = \<lparr>has_rating = False, rows = [mk_row ''u9'' ''i1'' 4, mk_row ''u2'' ''i2'' 0]\<rparr>"

section \<open>Properties\<close>

subsection \<open>Python primitives\<close>

text \<open>The exact operations, written out.\<close>

lemma np_dot_unfold:
  "np_dot xs ys =
     (if length xs = length ys then Inr (sum_list (map2 (*) xs ys)) else Inl ShapeError)"
  by (simp add: np_dot_def np_dot_fp_def exact_ops_def exact_dot_def)

lemma np_row_dot_exact: "np_row_dot_fp exact_ops row v = np_dot row v"
  by (simp add: np_dot_def np_dot_fp_def np_row_dot_fp_def exact_ops_def)

lemma np_add_unfold:
  "np_add xs ys =
     (if length xs = length ys then Inr (map2 (+) xs ys) else Inl ShapeError)"
  by (simp add: np_add_def np_add_fp_def exact_ops_def)

lemma fadd_exact: "fadd exact_ops = (+)"
  by (simp add: exact_ops_def)

lemma predict_unfold:
  "predict m u i =
     (if u \<ge> int (length (user_factors m)) \<or> i \<ge> int (length (item_factors m))
      then Inr (global_mean m)
      else
        bind_sum (py_index (user_biases m) u) (\<lambda>bu.
        bind_sum (py_index (item_biases m) i) (\<lambda>bi.
        bind_sum (py_index (user_factors m) u) (\<lambda>fu.
        bind_sum (py_index (item_factors m) i) (\<lambda>fi.
        bind_sum (np_dot fu fi) (\<lambda>d.
          let prediction = global_mean m + bu + bi + d
          in Inr (max 0 (min 5 prediction))))))))"
  unfolding predict_def predict_fp_def fadd_exact
  by (simp only: np_dot_def)

lemma get_user_recommendations_unfold:
  "get_user_recommendations m u n_recommendations exclude_seen =
     (if u \<ge> int (length (user_factors m)) then Inr []
      else
        bind_sum (py_index (user_factors m) u) (\<lambda>user_vector.
        bind_sum (sequence_sum (map (\<lambda>row. np_dot row user_vector) (item_factors m))) (\<lambda>scores0.
        bind_sum (np_add scores0 (item_biases m)) (\<lambda>scores1.
        bind_sum (py_index (user_biases m) u) (\<lambda>bu.
          let scores = map (\<lambda>s. s + (bu + global_mean m)) scores1;
              item_scores = filter (\<lambda>(idx, score). idx \<notin> exclude_seen) (enumerate_py scores)
          in Inr (py_take n_recommendations (sort_desc snd item_scores)))))))"
  unfolding get_user_recommendations_def get_user_recommendations_fp_def fadd_exact
    np_row_dot_exact
  by (simp only: np_add_def)

lemma py_index_nonneg: "0 \<le> i \<Longrightarrow> i < int (length xs) \<Longrightarrow> py_index xs i = Inr (xs ! nat i)"
  by (simp add: py_index_def)

lemma set_py_take: "set (py_take n xs) \<subseteq> set xs"
  by (auto simp: py_take_def dest: in_set_takeD)

lemma set_sort_desc: "set (sort_desc k xs) = set xs"
  by (simp add: sort_desc_def)

lemma sequence_sum_all_Inr:
  "\<forall>x \<in> set xs. f x = Inr (g x) \<Longrightarrow> sequence_sum (map f xs) = Inr (map g xs)"
  by (induction xs) auto

lemma in_enumerate_py: "(k, v) \<in> set (enumerate_py xs) \<longleftrightarrow> k < length xs \<and> v = xs ! k"
  by (force simp: enumerate_py_def in_set_zip)

lemma fitted_row_lengths:
  "fitted m \<Longrightarrow> u < length (user_factors m) \<Longrightarrow> i < length (item_factors m) \<Longrightarrow>
   length (user_factors m ! u) = length (item_factors m ! i)"
  by (simp add: fitted_def)

lemma predict_in_range:
  assumes "fitted m" "u < length (user_factors m)" "i < length (item_factors m)"
  shows "predict m (int u) (int i) = Inr (max 0 (min 5 (raw_prediction m u i)))"
proof -
  have lu: "length (user_biases m) = length (user_factors m)"
    and li: "length (item_biases m) = length (item_factors m)"
    using assms(1) by (simp_all add: fitted_def)
  have d: "np_dot (user_factors m ! u) (item_factors m ! i)
            = Inr (sum_list (map2 (*) (user_factors m ! u) (item_factors m ! i)))"
    using fitted_row_lengths[OF assms] by (simp add: np_dot_unfold)
  show ?thesis
    using assms(2,3) lu li d
    by (simp add: predict_unfold bind_sum_def py_index_nonneg raw_prediction_def Let_def)
qed

lemma batch_scores:
  assumes "fitted m" "u < length (user_factors m)"
  shows "get_user_recommendations m (int u) n ex =
           Inr (py_take n (sort_desc snd
                  (filter (\<lambda>(idx, score). idx \<notin> ex)
                     (enumerate_py (map (raw_prediction m u) [0..<length (item_factors m)])))))"
proof -
  have lu: "length (user_biases m) = length (user_factors m)"
    and li: "length (item_biases m) = length (item_factors m)"
    using assms(1) by (simp_all add: fitted_def)
  let ?uv = "user_factors m ! u"
  have "\<forall>row \<in> set (item_factors m). np_dot row ?uv = Inr (sum_list (map2 (*) row ?uv))"
    using assms by (auto simp: fitted_def np_dot_unfold)
  then have s0: "sequence_sum (map (\<lambda>row. np_dot row ?uv) (item_factors m))
              = Inr (map (\<lambda>row. sum_list (map2 (*) row ?uv)) (item_factors m))"
    by (rule sequence_sum_all_Inr)
  have eq: "map (\<lambda>s. s + (user_biases m ! u + global_mean m))
              (map2 (+) (map (\<lambda>row. sum_list (map2 (*) row ?uv)) (item_factors m)) (item_biases m))
            = map (raw_prediction m u) [0..<length (item_factors m)]"
  proof (rule nth_equalityI)
    show "length (map (\<lambda>s. s + (user_biases m ! u + global_mean m))
              (map2 (+) (map (\<lambda>row. sum_list (map2 (*) row ?uv)) (item_factors m)) (item_biases m)))
          = length (map (raw_prediction m u) [0..<length (item_factors m)])"
      using li by simp
  next
    fix k assume "k < length (map (\<lambda>s. s + (user_biases m ! u + global_mean m))
              (map2 (+) (map (\<lambda>row. sum_list (map2 (*) row ?uv)) (item_factors m)) (item_biases m)))"
    then have k: "k < length (item_factors m)" using li by simp
    have "sum_list (map2 (*) (item_factors m ! k) ?uv) = sum_list (map2 (*) ?uv (item_factors m ! k))"
      by (rule arg_cong[where f = sum_list])
         (auto simp: list_eq_iff_nth_eq mult.commute)
    then show "map (\<lambda>s. s + (user_biases m ! u + global_mean m))
              (map2 (+) (map (\<lambda>row. sum_list (map2 (*) row ?uv)) (item_factors m)) (item_biases m)) ! k
          = map (raw_prediction m u) [0..<length (item_factors m)] ! k"
      using k li by (simp add: raw_prediction_def)
  qed
  show ?thesis
    using assms(2) lu li s0 eq
    by (simp add: get_user_recommendations_unfold bind_sum_def py_index_nonneg np_add_unfold Let_def)
qed

lemma batch_members:
  assumes "fitted m" "u < length (user_factors m)"
    and "get_user_recommendations m (int u) n ex = Inr recs" "(i, sc) \<in> set recs"
  shows "i < length (item_factors m) \<and> i \<notin> ex \<and> sc = raw_prediction m u i"
proof -
  let ?cands = "filter (\<lambda>(idx, score). idx \<notin> ex)
                  (enumerate_py (map (raw_prediction m u) [0..<length (item_factors m)]))"
  have "recs = py_take n (sort_desc snd ?cands)"
    using assms(3) batch_scores[OF assms(1,2), of n ex] by simp
  then have "(i, sc) \<in> set (sort_desc snd ?cands)"
    using assms(4) set_py_take[of n "sort_desc snd ?cands"] by (simp add: subset_iff)
  then have "(i, sc) \<in> set ?cands"
    by (simp only: set_sort_desc)
  then show ?thesis by (auto simp: in_enumerate_py)
qed

lemma cf1_fitted: "fitted cf1"
  by (simp add: fitted_def cf1_def)

lemma cf1_batch: "get_user_recommendations cf1 0 1 {} = Inr [(0, 8)]"
  by (simp add: get_user_recommendations_unfold cf1_def bind_sum_def py_index_def np_dot_unfold
      np_add_unfold enumerate_py_def sort_desc_def py_take_def)

lemma cf1_predict: "predict cf1 0 0 = Inr 5"
  by (simp add: predict_unfold cf1_def bind_sum_def py_index_def np_dot_unfold)

subsection \<open>Collaborative filtering: predict and the batch scorer\<close>

text \<open>Both scorers under any arithmetic.\<close>

lemma predict_fp_in_range:
  assumes "fitted m" "u < length (user_factors m)" "i < length (item_factors m)"
  shows "predict_fp ops m (int u) (int i) = Inr (max 0 (min 5 (predict_sum ops m u i)))"
proof -
  have lu: "length (user_biases m) = length (user_factors m)"
    and li: "length (item_biases m) = length (item_factors m)"
    using assms(1) by (simp_all add: fitted_def)
  have d: "np_dot_fp ops (user_factors m ! u) (item_factors m ! i)
            = Inr (vdot ops (user_factors m ! u) (item_factors m ! i))"
    using fitted_row_lengths[OF assms] by (simp add: np_dot_fp_def)
  show ?thesis
    using assms(2,3) lu li d
    by (simp add: predict_fp_def bind_sum_def py_index_nonneg predict_sum_def Let_def)
qed

lemma batch_scores_fp:
  assumes "fitted m" "u < length (user_factors m)"
  shows "get_user_recommendations_fp ops m (int u) n ex =
           Inr (py_take n (sort_desc snd
                  (filter (\<lambda>(idx, score). idx \<notin> ex)
                     (enumerate_py (map (batch_sum ops m u) [0..<length (item_factors m)])))))"
proof -
  have lu: "length (user_biases m) = length (user_factors m)"
    and li: "length (item_biases m) = length (item_factors m)"
    using assms(1) by (simp_all add: fitted_def)
  let ?uv = "user_factors m ! u"
  let ?c = "fadd ops (user_biases m ! u) (global_mean m)"
  have "\<forall>row \<in> set (item_factors m). np_row_dot_fp ops row ?uv = Inr (mdot ops row ?uv)"
    using assms by (auto simp: fitted_def np_row_dot_fp_def)
  then have s0: "sequence_sum (map (\<lambda>row. np_row_dot_fp ops row ?uv) (item_factors m))
              = Inr (map (\<lambda>row. mdot ops row ?uv) (item_factors m))"
    by (rule sequence_sum_all_Inr)
  have eq: "map (\<lambda>s. fadd ops s ?c)
              (map2 (fadd ops) (map (\<lambda>row. mdot ops row ?uv) (item_factors m)) (item_biases m))
            = map (batch_sum ops m u) [0..<length (item_factors m)]"
    using li by (intro nth_equalityI) (simp_all add: batch_sum_def)
  show ?thesis
    using assms(2) lu li s0 eq
    by (simp add: get_user_recommendations_fp_def bind_sum_def py_index_nonneg np_add_fp_def
        Let_def)
qed

lemma batch_members_fp:
  assumes "fitted m" "u < length (user_factors m)"
    and "get_user_recommendations_fp ops m (int u) n ex = Inr recs" "(i, sc) \<in> set recs"
  shows "i < length (item_factors m) \<and> i \<notin> ex \<and> sc = batch_sum ops m u i"
proof -
  let ?cands = "filter (\<lambda>(idx, score). idx \<notin> ex)
                  (enumerate_py (map (batch_sum ops m u) [0..<length (item_factors m)]))"
  have "recs = py_take n (sort_desc snd ?cands)"
    using assms(3) batch_scores_fp[OF assms(1,2), of ops n ex] by simp
  then have "(i, sc) \<in> set (sort_desc snd ?cands)"
    using assms(4) set_py_take[of n "sort_desc snd ?cands"] by (simp add: subset_iff)
  then have "(i, sc) \<in> set ?cands"
    by (simp only: set_sort_desc)
  then show ?thesis by (auto simp: in_enumerate_py)
qed

lemma exact_dot_commute: "exact_dot xs ys = exact_dot ys xs"
  unfolding exact_dot_def
  by (rule arg_cong[where f = sum_list]) (auto simp: list_eq_iff_nth_eq mult.commute)

lemma sums_equal_exact: "batch_sum exact_ops m u i = predict_sum exact_ops m u i"
  using exact_dot_commute[of "item_factors m ! i" "user_factors m ! u"]
  by (simp add: batch_sum_def predict_sum_def exact_ops_def)

lemma cf1_batch_fp: "get_user_recommendations_fp exact_ops cf1 0 1 {} = Inr [(0, 8)]"
  using cf1_batch by (simp add: get_user_recommendations_def)

lemma cf1_predict_fp: "predict_fp exact_ops cf1 0 0 = Inr 5"
  using cf1_predict by (simp add: predict_def)

lemma cf1_sums: "batch_sum exact_ops cf1 0 0 = 8" "predict_sum exact_ops cf1 0 0 = 8"
  by (simp_all add: batch_sum_def predict_sum_def exact_ops_def exact_dot_def cf1_def)

text \<open>
  C7: for a fitted model and indices \<open>u\<close>, \<open>i\<close> inside the fitted range,
  \<^verbatim>\<open>predict(u, i)\<close> returns a value, and the value lies in the closed interval from
  0 to 5.
\<close>

theorem C7_predict_in_0_5:
  assumes "fitted m" "0 \<le> u" "u < int (length (user_factors m))"
    "0 \<le> i" "i < int (length (item_factors m))"
  shows "\<exists>v. predict m u i = Inr v \<and> 0 \<le> v \<and> v \<le> 5"
  using predict_in_range[of m "nat u" "nat i"] assms by simp

theorem C7_predict_in_0_5_witness:
  "fitted cf1 \<and> (0::int) \<le> 0 \<and> 0 < int (length (user_factors cf1))
   \<and> 0 < int (length (item_factors cf1))
   \<and> (\<exists>v. predict cf1 0 0 = Inr v \<and> 0 \<le> v \<and> v \<le> 5)"
  using C7_predict_in_0_5[of cf1 0 0] cf1_fitted by (simp add: cf1_def)

text \<open>
  C2, as stated, fails: on the model fitted on the single rating 4 (\<open>cf1_fitted\<close>) the
  batch scorer returns item 0 with score 8, and \<^verbatim>\<open>predict(0, 0)\<close> is 5.
\<close>

theorem C2_batch_score_is_predict_counterexample:
  "get_user_recommendations cf1 0 1 {} = Inr [(0, 8)] \<and> predict cf1 0 0 = Inr 5"
  using cf1_batch cf1_predict by simp

text \<open>
  C2, amended: for a fitted model, a user index \<open>u\<close> in range, every \<open>n\<close> and every
  exclusion set, and whatever the rounding of the additions and dot products,
  \<^verbatim>\<open>get_user_recommendations(u, n, exclude)\<close> returns a list, and each pair
  \<open>(i, score)\<close> of it carries the sum
  \<open>(dot(item_factors[i], user_factors[u]) + item_bias[i]) + (user_bias[u] + global_mean)\<close>
  without a clamp; \<^verbatim>\<open>predict(u, i)\<close> returns the sum
  \<open>((global_mean + user_bias[u]) + item_bias[i]) + dot(user_factors[u], item_factors[i])\<close>
  clamped to the interval from 0 to 5. The two sums are equal in exact arithmetic; no
  equality between them is stated for rounded arithmetic.
\<close>

theorem C2_batch_score_unclamped:
  assumes "fitted m" "0 \<le> u" "u < int (length (user_factors m))"
  shows "(\<exists>recs. get_user_recommendations_fp ops m u n ex = Inr recs \<and>
           (\<forall>(i, sc) \<in> set recs.
              sc = batch_sum ops m (nat u) i \<and>
              predict_fp ops m u (int i) = Inr (max 0 (min 5 (predict_sum ops m (nat u) i)))))
       \<and> (\<forall>i. batch_sum exact_ops m (nat u) i = predict_sum exact_ops m (nat u) i)"
proof -
  have u: "nat u < length (user_factors m)" and iu: "int (nat u) = u"
    using assms(2,3) by simp_all
  obtain recs where r: "get_user_recommendations_fp ops m (int (nat u)) n ex = Inr recs"
    using batch_scores_fp[OF assms(1) u] by blast
  have "sc = batch_sum ops m (nat u) i \<and>
        predict_fp ops m u (int i) = Inr (max 0 (min 5 (predict_sum ops m (nat u) i)))"
    if "(i, sc) \<in> set recs" for i sc
    using batch_members_fp[OF assms(1) u r that]
      predict_fp_in_range[OF assms(1) u, of i ops] iu
    by simp
  then show ?thesis using r iu sums_equal_exact by auto
qed

theorem C2_batch_score_unclamped_witness:
  "fitted cf1 \<and> (0::int) \<le> 0 \<and> 0 < int (length (user_factors cf1)) \<and>
   get_user_recommendations_fp exact_ops cf1 0 1 {} = Inr [(0, 8)] \<and>
   batch_sum exact_ops cf1 0 0 = 8 \<and>
   predict_fp exact_ops cf1 0 0 = Inr (max 0 (min 5 (predict_sum exact_ops cf1 0 0))) \<and>
   predict_sum exact_ops cf1 0 0 = 8"
  using C2_batch_score_unclamped[of cf1 0 exact_ops 1 "{}"] cf1_fitted cf1_batch_fp cf1_sums
  by (simp add: cf1_def)

subsection \<open>Indices outside the fitted range\<close>

lemma predict_cf1_minus_1: "predict cf1 (- 1) 0 = Inr 5"
  by (simp add: predict_unfold cf1_def bind_sum_def py_index_def np_dot_unfold)

lemma predict_cf1_minus_2: "predict cf1 (- 2) 0 = Inl IndexError"
  by (simp add: predict_unfold cf1_def bind_sum_def py_index_def)

lemma batch_cf1_minus_1: "get_user_recommendations cf1 (- 1) 1 {} = Inr [(0, 8)]"
  by (simp add: get_user_recommendations_unfold cf1_def bind_sum_def py_index_def np_dot_unfold
      np_add_unfold enumerate_py_def sort_desc_def py_take_def)

lemma batch_cf1_minus_2: "get_user_recommendations cf1 (- 2) 1 {} = Inl IndexError"
  by (simp add: get_user_recommendations_unfold cf1_def bind_sum_def py_index_def)

lemma similar_cb1_minus_1: "get_similar_items cb1 (- 1) 1 = Inr [(0, 1)]"
  by (simp add: get_similar_items_def cb1_def bind_sum_def py_index_def enumerate_py_def
      sort_desc_def py_take_def)

lemma similar_cb1_minus_2: "get_similar_items cb1 (- 2) 1 = Inl IndexError"
  by (simp add: get_similar_items_def cb1_def bind_sum_def py_index_def)

text \<open>For an index that is too large the guards return the default or the empty list.\<close>

lemma too_large_index_defaulted:
  "u \<ge> int (length (user_factors m)) \<Longrightarrow> predict m u i = Inr (global_mean m)"
  "i \<ge> int (length (item_factors m)) \<Longrightarrow> predict m u i = Inr (global_mean m)"
  "u \<ge> int (length (user_factors m)) \<Longrightarrow> get_user_recommendations m u n ex = Inr []"
  "j \<ge> int (length (item_similarity_matrix c)) \<Longrightarrow> get_similar_items c j n = Inr []"
  by (simp_all add: predict_unfold get_user_recommendations_unfold get_similar_items_def)

text \<open>
  C3 at negative indices, on a model with one user and one item (fitted range: index 0
  only). The guards compare with the upper bound only, so index \<open>-1\<close> is served from the
  last row (\<^verbatim>\<open>predict\<close> returns 5 where \<open>global_mean\<close> is 4, both list operations
  return a non-empty list, \<^verbatim>\<open>get_similar_items\<close> even the queried item itself) and
  index \<open>-2\<close> raises \<^verbatim>\<open>IndexError\<close> in all three operations.
\<close>

theorem C3_negative_index_not_defaulted:
  "global_mean cf1 = 4 \<and>
   predict cf1 (- 1) 0 = Inr 5 \<and>
   predict cf1 (- 2) 0 = Inl IndexError \<and>
   get_user_recommendations cf1 (- 1) 1 {} = Inr [(0, 8)] \<and>
   get_user_recommendations cf1 (- 2) 1 {} = Inl IndexError \<and>
   get_similar_items cb1 (- 1) 1 = Inr [(0, 1)] \<and>
   get_similar_items cb1 (- 2) 1 = Inl IndexError"
  using predict_cf1_minus_1 predict_cf1_minus_2 batch_cf1_minus_1
    batch_cf1_minus_2 similar_cb1_minus_1 similar_cb1_minus_2
  by (simp add: cf1_def)

subsection \<open>Identity encoding\<close>

lemma set_unique_acc: "set (unique_acc seen xs) = set xs - set seen"
  by (induction seen xs rule: unique_acc.induct) auto

lemma distinct_unique_acc: "distinct (unique_acc seen xs)"
  by (induction seen xs rule: unique_acc.induct) (auto simp: set_unique_acc)

lemma set_pd_unique: "set (pd_unique xs) = set xs"
  by (simp add: pd_unique_def set_unique_acc)

lemma distinct_pd_unique: "distinct (pd_unique xs)"
  by (simp add: pd_unique_def distinct_unique_acc)

lemma length_pd_unique: "length (pd_unique xs) = card (set xs)"
  using distinct_card[OF distinct_pd_unique, of xs] by (simp add: set_pd_unique)

lemma make_encoder_zip: "make_encoder us = zip us [0..<length us]"
  unfolding make_encoder_def enumerate_py_def
  by (subst zip_commute) simp

lemma make_encoder_keys: "map fst (make_encoder us) = us"
  by (simp add: make_encoder_zip)

lemma make_encoder_values: "map snd (make_encoder us) = [0..<length us]"
  by (simp add: make_encoder_zip)

lemma first_occurrence_less: "a \<in> set xs \<Longrightarrow> first_occurrence xs a < length xs"
  unfolding first_occurrence_def
  by (induction xs) auto

lemma nth_first_occurrence: "a \<in> set xs \<Longrightarrow> xs ! first_occurrence xs a = a"
  unfolding first_occurrence_def
  by (induction xs) auto

lemma first_occurrence_nth:
  "distinct xs \<Longrightarrow> k < length xs \<Longrightarrow> first_occurrence xs (xs ! k) = k"
  unfolding first_occurrence_def
proof (induction xs arbitrary: k)
  case Nil
  then show ?case by simp
next
  case (Cons x xs)
  then show ?case by (cases k) auto
qed

lemma map_of_zip_upt:
  "a \<in> set us \<Longrightarrow> map_of (zip us [k..<k + length us]) a = Some (k + first_occurrence us a)"
proof (induction us arbitrary: k)
  case Nil
  then show ?case by simp
next
  case (Cons x us)
  have upt: "[k..<k + length (x # us)] = k # [Suc k..<Suc k + length us]"
    by (subst upt_rec) simp
  show ?case
  proof (cases "x = a")
    case True
    then show ?thesis unfolding upt by (simp add: first_occurrence_def)
  next
    case False
    then have "a \<in> set us" using Cons.prems by simp
    from Cons.IH[OF this, of "Suc k"] False show ?thesis
      unfolding upt by (simp add: first_occurrence_def)
  qed
qed

lemma map_of_make_encoder:
  "a \<in> set us \<Longrightarrow> map_of (make_encoder us) a = Some (first_occurrence us a)"
  using map_of_zip_upt[of a us 0] by (simp add: make_encoder_zip)

lemma map_of_make_encoder_None:
  "a \<notin> set us \<Longrightarrow> map_of (make_encoder us) a = None"
  by (simp add: make_encoder_zip map_of_zip_is_None)

lemma first_occurrence_Cons:
  "first_occurrence (x # xs) a = (if x = a then 0 else Suc (first_occurrence xs a))"
  by (simp add: first_occurrence_def)

lemma unique_acc_order:
  "a \<in> set xs - set seen \<Longrightarrow> b \<in> set xs - set seen \<Longrightarrow>
   (first_occurrence (unique_acc seen xs) a < first_occurrence (unique_acc seen xs) b)
     = (first_occurrence xs a < first_occurrence xs b)"
proof (induction seen xs rule: unique_acc.induct)
  case (1 seen)
  then show ?case by simp
next
  case (2 seen x xs)
  show ?case
  proof (cases "x \<in> set seen")
    case True
    then have "a \<noteq> x" "b \<noteq> x" using "2.prems" by auto
    then show ?thesis using True 2 by (auto simp: first_occurrence_Cons)
  next
    case False
    then show ?thesis using 2 by (auto simp: first_occurrence_Cons)
  qed
qed

lemma pd_unique_order:
  "a \<in> set xs \<Longrightarrow> b \<in> set xs \<Longrightarrow>
   (first_occurrence (pd_unique xs) a < first_occurrence (pd_unique xs) b)
     = (first_occurrence xs a < first_occurrence xs b)"
  using unique_acc_order[of a xs "[]" b] by (simp add: pd_unique_def)

lemma make_encoder_bij:
  assumes "distinct us"
  shows "bij_betw (\<lambda>a. the (map_of (make_encoder us) a)) (set us) {0..<length us}"
proof (rule bij_betw_byWitness[where f' = "\<lambda>k. us ! k"])
  show "\<forall>a\<in>set us. us ! the (map_of (make_encoder us) a) = a"
    by (simp add: map_of_make_encoder nth_first_occurrence)
  show "\<forall>k\<in>{0..<length us}. the (map_of (make_encoder us) (us ! k)) = k"
    using assms by (simp add: map_of_make_encoder first_occurrence_nth)
  show "(\<lambda>a. the (map_of (make_encoder us) a)) ` set us \<subseteq> {0..<length us}"
    by (auto simp: map_of_make_encoder first_occurrence_less)
  show "(!) us ` {0..<length us} \<subseteq> set us"
    by auto
qed

lemma make_encoder_first_occurrence:
  "first_occurrence_encoding (make_encoder (pd_unique xs)) xs"
  unfolding first_occurrence_encoding_def
proof (intro conjI ballI)
  show "distinct (map fst (make_encoder (pd_unique xs)))"
    by (simp add: make_encoder_keys distinct_pd_unique)
  show "set (map fst (make_encoder (pd_unique xs))) = set xs"
    by (simp add: make_encoder_keys set_pd_unique)
  show "map snd (make_encoder (pd_unique xs)) = [0..<card (set xs)]"
    by (simp add: make_encoder_values length_pd_unique)
  show "bij_betw (\<lambda>a. the (map_of (make_encoder (pd_unique xs)) a)) (set xs) {0..<card (set xs)}"
    using make_encoder_bij[OF distinct_pd_unique, of xs]
    by (simp add: set_pd_unique length_pd_unique)
next
  fix a b assume "a \<in> set xs" "b \<in> set xs"
  then show "(the (map_of (make_encoder (pd_unique xs)) a) < the (map_of (make_encoder (pd_unique xs)) b))
          = (first_occurrence xs a < first_occurrence xs b)"
    by (simp add: map_of_make_encoder set_pd_unique pd_unique_order)
qed

lemma preprocess_user_encoder:
  "user_encoder (fst (preprocess_interactions dp df))
     = make_encoder (pd_unique (map user_id (kept_rows dp df)))"
  by (simp add: preprocess_interactions_def kept_rows_def Let_def)

lemma preprocess_item_encoder:
  "item_encoder (fst (preprocess_interactions dp df))
     = make_encoder (pd_unique (map item_id (kept_rows dp df)))"
  by (simp add: preprocess_interactions_def kept_rows_def Let_def)

text \<open>
  C6: for every training input, after preprocessing the user encoder and the item
  encoder are bijections from the distinct users (items) of the filtered, deduplicated
  data onto the contiguous range of indices from 0 up to their number, without gap or
  repeat, and the indices follow the order of first occurrence in that data.
\<close>

theorem C6_encoders_contiguous_first_occurrence:
  "first_occurrence_encoding (user_encoder (fst (preprocess_interactions dp df)))
      (map user_id (kept_rows dp df)) \<and>
   first_occurrence_encoding (item_encoder (fst (preprocess_interactions dp df)))
      (map item_id (kept_rows dp df))"
  by (simp only: preprocess_user_encoder preprocess_item_encoder make_encoder_first_occurrence)


lemma scenario_users: "map user_id (kept_rows (DataProcessor_init 1) scenario) = [''u1'', ''u1'', ''u2'', ''u2'']"
  by code_simp

lemma scenario_items: "map item_id (kept_rows (DataProcessor_init 1) scenario) = [''i1'', ''i2'', ''i1'', ''i3'']"
  by code_simp

lemma scenario_user_encoder:
  "user_encoder (fst (preprocess_interactions (DataProcessor_init 1) scenario)) = [(''u1'', 0), (''u2'', 1)]"
  by code_simp

lemma scenario_item_encoder:
  "item_encoder (fst (preprocess_interactions (DataProcessor_init 1) scenario))
     = [(''i1'', 0), (''i2'', 1), (''i3'', 2)]"
  by code_simp

theorem C6_encoders_contiguous_first_occurrence_witness:
  "first_occurrence_encoding [(''u1'', 0), (''u2'', 1)] [''u1'', ''u1'', ''u2'', ''u2''] \<and>
   first_occurrence_encoding [(''i1'', 0), (''i2'', 1), (''i3'', 2)] [''i1'', ''i2'', ''i1'', ''i3'']"
  using C6_encoders_contiguous_first_occurrence[of "DataProcessor_init 1" scenario]
  by (simp only: scenario_users scenario_items scenario_user_encoder scenario_item_encoder)

subsection \<open>Training\<close>

lemma train_is_trained:
  "is_trained (fst (train F G s df items feats))
     = (is_trained s \<or> snd (train F G s df items feats) = None)"
  by (auto simp: train_def Let_def split: prod.splits sum.splits)

lemma train_seen:
  "user_item_interactions (fst (train F G s df items feats)) =
     (case create_interaction_matrix (fst (preprocess_interactions (data_processor s) df))
             (snd (preprocess_interactions (data_processor s) df)) of
        Inl e \<Rightarrow> user_item_interactions s
      | Inr mat \<Rightarrow> store_interactions (user_item_interactions s)
                     (ef_rows (snd (preprocess_interactions (data_processor s) df))))"
  by (auto simp: train_def Let_def split: prod.splits sum.splits)

lemma train_data_processor:
  "data_processor (fst (train F G s df items feats))
     = fst (preprocess_interactions (data_processor s) df)"
  by (auto simp: train_def Let_def split: prod.splits sum.splits)

lemma preprocess_min_interactions:
  "min_interactions (fst (preprocess_interactions dp df)) = min_interactions dp"
  by (simp add: preprocess_interactions_def Let_def)

text \<open>
  C10: on an engine that is not trained, a call of \<^verbatim>\<open>train\<close> that raises (in
  whichever step) leaves the engine untrained: the flag is set only after the last fit,
  and \<^verbatim>\<open>get_recommendations\<close> and \<^verbatim>\<open>evaluate\<close> still raise the untrained-model
  error.
\<close>

theorem C10_failed_first_train_stays_untrained:
  assumes "\<not> is_trained s" and "snd (train F G s df items feats) = Some e"
  shows "\<not> is_trained (fst (train F G s df items feats)) \<and>
         get_recommendations (fst (train F G s df items feats)) uid n = Inl UntrainedModelError \<and>
         evaluate (fst (train F G s df items feats)) t = Inl UntrainedModelError"
  using assms by (simp add: train_is_trained get_recommendations_def evaluate_def)

lemma failing_fit: "snd (train (\<lambda>_. Inl FitError) (\<lambda>_ _. Inr cb1) (engine_init 1 0) scenario () [])
       = Some FitError"
  by code_simp

theorem C10_failed_first_train_stays_untrained_witness:
  "\<not> is_trained (engine_init 1 0) \<and>
   snd (train (\<lambda>_. Inl FitError) (\<lambda>_ _. Inr cb1) (engine_init 1 0) scenario () []) = Some FitError \<and>
   get_recommendations
     (fst (train (\<lambda>_. Inl FitError) (\<lambda>_ _. Inr cb1) (engine_init 1 0) scenario () [])) ''u1'' 3
       = Inl UntrainedModelError \<and>
   evaluate
     (fst (train (\<lambda>_. Inl FitError) (\<lambda>_ _. Inr cb1) (engine_init 1 0) scenario () [])) scenario
       = Inl UntrainedModelError"
proof -
  have u: "\<not> is_trained (engine_init 1 0)"
    by (simp add: engine_init_def)
  show ?thesis
    using u failing_fit
      C10_failed_first_train_stays_untrained[OF u failing_fit, of "''u1''" 3 scenario]
    by simp
qed

subsection \<open>Retraining\<close>

lemma store_row_grows:
  "d u = Some S \<Longrightarrow> \<exists>S'. store_row r d u = Some S' \<and> S \<subseteq> S'"
  by (cases "user_idx r"; cases "item_idx r") (auto simp: store_row_def)

lemma store_interactions_grows:
  "d u = Some S \<Longrightarrow> \<exists>S'. store_interactions d rs u = Some S' \<and> S \<subseteq> S'"
  unfolding store_interactions_def
proof (induction rs arbitrary: d S)
  case Nil
  then show ?case by simp
next
  case (Cons r rs)
  from store_row_grows[of d u S r] Cons.prems obtain S1 where
    1: "store_row r d u = Some S1" and 2: "S \<subseteq> S1" by blast
  from Cons.IH[of "store_row r d" S1] 1 obtain S' where "fold store_row rs (store_row r d) u = Some S'" "S1 \<subseteq> S'"
    by blast
  then show ?case using 2 by auto
qed

text \<open>Whatever a user index had seen before a call of \<^verbatim>\<open>train\<close> it has seen after it,
  for every training input and whatever the fits return.\<close>

lemma train_keeps_seen:
  assumes "user_item_interactions s u = Some S"
  shows "\<exists>S'. user_item_interactions (fst (train F G s df items feats)) u = Some S' \<and> S \<subseteq> S'"
proof (cases "create_interaction_matrix (fst (preprocess_interactions (data_processor s) df))
             (snd (preprocess_interactions (data_processor s) df))")
  case (Inl e)
  then show ?thesis using assms by (simp add: train_seen)
next
  case (Inr mat)
  then show ?thesis
    using store_interactions_grows[of "user_item_interactions s" u S] assms
    by (simp add: train_seen)
qed

lemma retrained_seen: "user_item_interactions retrained 5 = Some {0, 1, 2, 3, 4}"
  by code_simp

lemma fresh_seen: "user_item_interactions fresh 5 = Some {1, 2, 3, 4}"
  by code_simp

lemma retrained_user: "map_of (user_encoder (data_processor retrained)) ''f'' = Some 5"
  by code_simp

lemma fresh_user: "map_of (user_encoder (data_processor fresh)) ''f'' = Some 5"
  by code_simp

lemma retrained_recs: "get_recommendations retrained ''f'' 10 = Inr []"
  by code_simp

lemma fresh_recs: "get_recommendations fresh ''f'' 10 =
   Inr [\<lparr>rec_item_id = ''p'', score = 7/10, cf_score = 1, cb_score = 0, rec_method = ''hybrid''\<rparr>]"
  by code_simp

lemma same_encoders:
  "user_encoder (data_processor retrained) = user_encoder (data_processor fresh) \<and>
   item_encoder (data_processor retrained) = item_encoder (data_processor fresh) \<and>
   interaction_matrix retrained = interaction_matrix fresh"
  by code_simp

text \<open>
  C1 on the two training runs: \<^verbatim>\<open>train\<close> replaces the encoders and the matrix
  (\<open>same_encoders\<close>), but it adds to the dictionary of seen items that the engine
  already holds (\<open>train_keeps_seen\<close>). User \<open>f\<close> has index 5 in both runs. In the second run \<open>f\<close> has not
  interacted with item \<open>p\<close> (index 0), and a new engine records the seen items 1 to 4
  and recommends \<open>p\<close>; the retrained engine still holds index 0 from the first run and
  recommends nothing.
\<close>

theorem C1_retrain_keeps_previous_seen_set:
  "user_item_interactions retrained 5 = Some {0, 1, 2, 3, 4} \<and>
   user_item_interactions fresh 5 = Some {1, 2, 3, 4} \<and>
   get_recommendations retrained ''f'' 10 = Inr [] \<and>
   get_recommendations fresh ''f'' 10 =
     Inr [\<lparr>rec_item_id = ''p'', score = 7/10, cf_score = 1, cb_score = 0,
           rec_method = ''hybrid''\<rparr>]"
  using retrained_seen fresh_seen retrained_recs fresh_recs by simp

subsection \<open>Recommendations for a known user\<close>

lemma sequence_sum_map_member:
  "sequence_sum (map f xs) = Inr ys \<Longrightarrow> r \<in> set ys \<Longrightarrow> \<exists>x \<in> set xs. f x = Inr r"
proof (induction xs arbitrary: ys)
  case Nil
  then show ?case by simp
next
  case (Cons x xs)
  then show ?case by (auto split: sum.splits)
qed

lemma bind_sum_Inr: "bind_sum x f = Inr y \<longleftrightarrow> (\<exists>v. x = Inr v \<and> f v = Inr y)"
  by (cases x) (simp_all add: bind_sum_def)

lemma keys_update: "fst ` set (AList.update k v d) = insert k (fst ` set d)"
  using dom_update[of k v d] by (simp add: dom_map_of_conv_image_fst)

lemma keys_dict_of_acc:
  "fst ` set (fold (\<lambda>(k, v) d. AList.update k v d) xs d0) = fst ` set xs \<union> fst ` set d0"
proof (induction xs arbitrary: d0)
  case Nil
  then show ?case by simp
next
  case (Cons x xs)
  obtain k v where x: "x = (k, v)" by (cases x)
  have "fst ` set (fold (\<lambda>(k, v) d. AList.update k v d) (x # xs) d0)
      = fst ` set (fold (\<lambda>(k, v) d. AList.update k v d) xs (AList.update k v d0))"
    by (simp add: x)
  also have "\<dots> = fst ` set xs \<union> fst ` set (AList.update k v d0)"
    by (rule Cons.IH)
  also have "\<dots> = fst ` set xs \<union> insert k (fst ` set d0)"
    by (simp only: keys_update)
  also have "\<dots> = fst ` set (x # xs) \<union> fst ` set d0"
    by (simp add: x)
  finally show ?case .
qed

lemma keys_dict_of: "fst ` set (dict_of xs) = fst ` set xs"
  by (simp add: dict_of_def keys_dict_of_acc)



lemma keys_cb_step:
  "fst ` set (if idx \<notin> seen then AList.update idx v d else d) \<subseteq> fst ` set d \<union> ({idx} - seen)"
proof (cases "idx \<in> seen")
  case True
  then show ?thesis by simp
next
  case False
  then show ?thesis by (simp only: if_True keys_update not_False_eq_True) blast
qed

lemma subset_chain:
  "P \<subseteq> Q \<union> (S - T) \<Longrightarrow> Q \<subseteq> R \<union> ({a} - T) \<Longrightarrow> P \<subseteq> R \<union> (insert a S - T)"
  by blast

lemma keys_cb_accumulate:
  "fst ` set (cb_accumulate seen sims d) \<subseteq> fst ` set d \<union> (fst ` set sims - seen)"
  unfolding cb_accumulate_def
proof (induction sims arbitrary: d)
  case Nil
  then show ?case by simp
next
  case (Cons x sims)
  obtain a b where x: "x = (a, b)" by (cases x)
  let ?F = "\<lambda>(idx, similarity) d.
      if idx \<notin> seen then AList.update idx (dict_get0 d idx + similarity) d else d"
  let ?d = "if a \<notin> seen then AList.update a (dict_get0 d a + b) d else d"
  have A: "fst ` set (fold ?F sims ?d) \<subseteq> fst ` set ?d \<union> (fst ` set sims - seen)"
    by (rule Cons.IH)
  have B: "fst ` set ?d \<subseteq> fst ` set d \<union> ({a} - seen)"
    by (rule keys_cb_step)
  have C: "fst ` set (fold ?F sims ?d) \<subseteq> fst ` set d \<union> (insert a (fst ` set sims) - seen)"
    using A B by (rule subset_chain)
  have D: "fold ?F (x # sims) d = fold ?F sims ?d"
    by (simp add: x)
  have E: "fst ` set (x # sims) = insert a (fst ` set sims)"
    by (simp add: x)
  show ?case unfolding D E by (rule C)
qed

lemma keys_cb_loop:
  "cb_loop cb seen seeds d = Inr out \<Longrightarrow> fst ` set d \<inter> seen = {} \<Longrightarrow>
   fst ` set out \<inter> seen = {}"
proof (induction seeds arbitrary: d)
  case Nil
  then show ?case by simp
next
  case (Cons x seeds)
  from Cons.prems(1) obtain sims where
    s: "get_similar_items cb (int x) 20 = Inr sims"
    and l: "cb_loop cb seen seeds (cb_accumulate seen sims d) = Inr out"
    by (auto simp: bind_sum_Inr)
  have "fst ` set (cb_accumulate seen sims d) \<inter> seen = {}"
    using keys_cb_accumulate[of seen sims d] Cons.prems(2) by auto
  from Cons.IH[OF l this] show ?case .
qed

lemma keys_cb_candidates:
  "cb_candidates cbo seen = Inr out \<Longrightarrow> fst ` set out \<inter> seen = {}"
proof -
  assume a: "cb_candidates cbo seen = Inr out"
  then have "out = [] \<or> (\<exists>cb seeds. cb_loop cb seen seeds [] = Inr out)"
    unfolding cb_candidates_def
    by (cases "take 5 (sorted_list_of_set seen)"; cases cbo)
       (auto split: if_splits simp del: cb_loop.simps)
  then show ?thesis
    using keys_cb_loop[of _ seen _ "[]" out] by auto
qed

lemma set_py_take_sort_desc: "x \<in> set (py_take n (sort_desc k xs)) \<Longrightarrow> x \<in> set xs"
  using set_py_take[of n "sort_desc k xs"] by (auto simp: set_sort_desc)

lemma batch_result_shape:
  "get_user_recommendations m u n ex = Inr recs \<Longrightarrow>
   recs = [] \<or> (\<exists>scores. recs = py_take n (sort_desc snd
              (filter (\<lambda>(idx, score). idx \<notin> ex) (enumerate_py scores))))"
  unfolding get_user_recommendations_unfold
  by (auto simp: bind_sum_Inr Let_def split: if_splits)

lemma distinct_map_fst_sort_desc:
  "distinct (map fst xs) \<Longrightarrow> distinct (map fst (sort_desc k xs))"
  by (simp add: distinct_map sort_desc_def)

lemma distinct_map_fst_py_take:
  "distinct (map fst xs) \<Longrightarrow> distinct (map fst (py_take n xs))"
  by (simp add: py_take_def take_map[symmetric] distinct_take)

lemma distinct_map_fst_enumerate: "distinct (map fst (enumerate_py xs))"
  by (simp add: enumerate_py_def)

lemma batch_result_keys:
  assumes "get_user_recommendations m u n ex = Inr recs"
  shows "distinct (map fst recs) \<and> fst ` set recs \<inter> ex = {}"
proof -
  from batch_result_shape[OF assms] show ?thesis
  proof
    assume "recs = []" then show ?thesis by simp
  next
    assume "\<exists>scores. recs = py_take n (sort_desc snd
              (filter (\<lambda>(idx, score). idx \<notin> ex) (enumerate_py scores)))"
    then obtain scores where r: "recs = py_take n (sort_desc snd
              (filter (\<lambda>(idx, score). idx \<notin> ex) (enumerate_py scores)))" by blast
    have "distinct (map fst (filter (\<lambda>(idx, score). idx \<notin> ex) (enumerate_py scores)))"
      using distinct_map_fst_enumerate[of scores] by (simp add: distinct_map_filter)
    then have d: "distinct (map fst recs)"
      unfolding r by (intro distinct_map_fst_py_take distinct_map_fst_sort_desc)
    have "x \<in> set recs \<Longrightarrow> fst x \<notin> ex" for x
      unfolding r by (drule set_py_take_sort_desc) auto
    then show ?thesis using d by auto
  qed
qed

lemma cf_candidates_keys:
  "cf_candidates cfo u n seen = Inr recs \<Longrightarrow>
   distinct (map fst recs) \<and> fst ` set recs \<inter> seen = {}"
  unfolding cf_candidates_def
  by (auto split: option.splits dest: batch_result_keys)

lemma hybrid_scores_member:
  assumes "x \<in> set (hybrid_scores cfw cbw cf cb)"
  shows "\<exists>i \<in> fst ` set cf \<union> fst ` set cb. x = hybrid_row cfw cbw cf cb i"
  using assms unfolding hybrid_scores_def Let_def
  by (auto simp: set_sort_desc)

lemma format_hybrid_Inr:
  "format_hybrid dp (i, h, c, b) = Inr r \<Longrightarrow>
   map_of (item_decoder dp) i = Some (rec_item_id r) \<and> score r = h \<and> cf_score r = c \<and>
   cb_score r = b \<and> rec_method r = ''hybrid''"
  by (auto split: option.splits)

text \<open>What a successful call returns for a known user.\<close>

lemma known_user_recs:
  assumes "get_recommendations s uid n = Inr recs"
    and "map_of (user_encoder (data_processor s)) uid = Some u"
    and "r \<in> set recs"
  shows "\<exists>cf_recs cb_scores i.
      cf_candidates (cf_model s) u n (seen_of s u) = Inr cf_recs \<and>
      cb_candidates (cb_model s) (seen_of s u) = Inr cb_scores \<and>
      i \<in> fst ` set cf_recs \<union> fst ` set cb_scores \<and>
      map_of (item_decoder (data_processor s)) i = Some (rec_item_id r) \<and>
      cf_score r = dict_get0 (dict_of cf_recs) i \<and>
      cb_score r = dict_get0 cb_scores i \<and>
      score r = cf_weight s * cf_score r + cb_weight s * cb_score r \<and>
      rec_method r = ''hybrid''"
proof -
  from assms(1,2) obtain cf_recs cb_scores where
    cf: "cf_candidates (cf_model s) u n (seen_of s u) = Inr cf_recs" and
    cb: "cb_candidates (cb_model s) (seen_of s u) = Inr cb_scores" and
    sq: "sequence_sum (map (format_hybrid (data_processor s))
           (py_take n (hybrid_scores (cf_weight s) (cb_weight s) (dict_of cf_recs) cb_scores)))
         = Inr recs"
    by (auto simp: get_recommendations_def bind_sum_Inr Let_def split: if_splits)
  from sequence_sum_map_member[OF sq assms(3)] obtain x where
    x: "x \<in> set (py_take n (hybrid_scores (cf_weight s) (cb_weight s) (dict_of cf_recs) cb_scores))"
    and f: "format_hybrid (data_processor s) x = Inr r" by blast
  from x have "x \<in> set (hybrid_scores (cf_weight s) (cb_weight s) (dict_of cf_recs) cb_scores)"
    by (rule set_py_take[THEN subsetD])
  from hybrid_scores_member[OF this] obtain i where
    i: "i \<in> fst ` set cf_recs \<union> fst ` set cb_scores"
    and xi: "x = hybrid_row (cf_weight s) (cb_weight s) (dict_of cf_recs) cb_scores i"
    by (auto simp: keys_dict_of)
  from f[unfolded xi hybrid_row_def Let_def] have
    "map_of (item_decoder (data_processor s)) i = Some (rec_item_id r) \<and>
     score r = cf_weight s * dict_get0 (dict_of cf_recs) i + cb_weight s * dict_get0 cb_scores i \<and>
     cf_score r = dict_get0 (dict_of cf_recs) i \<and> cb_score r = dict_get0 cb_scores i \<and>
     rec_method r = ''hybrid''"
    by (rule format_hybrid_Inr)
  with cf cb i show ?thesis by auto
qed


lemma dict_get0_present:
  "distinct (map fst d) \<Longrightarrow> (i, v) \<in> set d \<Longrightarrow> dict_get0 d i = v"
  by (simp add: dict_get0_def)



lemma make_decoder_zip: "make_decoder (make_encoder us) = zip [0..<length us] us"
  unfolding make_decoder_def make_encoder_zip
  by (subst zip_commute) simp

lemma map_of_decoder_Some:
  "map_of (make_decoder (make_encoder us)) i = Some x \<Longrightarrow> i < length us \<and> us ! i = x"
  unfolding make_decoder_zip
  by (auto dest!: map_of_SomeD simp: in_set_zip)

lemma map_of_decoder_nth:
  "i < length us \<Longrightarrow> map_of (make_decoder (make_encoder us)) i = Some (us ! i)"
  unfolding make_decoder_zip
  using map_of_zip_nth[of "[0..<length us]" us i] by simp

lemma decoder_inj:
  assumes "distinct us"
    and "map_of (make_decoder (make_encoder us)) i = Some x"
    and "map_of (make_decoder (make_encoder us)) j = Some x"
  shows "i = j"
proof -
  have i: "i < length us" "us ! i = x" using map_of_decoder_Some[OF assms(2)] by simp_all
  have j: "j < length us" "us ! j = x" using map_of_decoder_Some[OF assms(3)] by simp_all
  have "us ! i = us ! j" using i(2) j(2) by simp
  then show ?thesis using nth_eq_iff_index_eq[OF assms(1) i(1) j(1)] by simp
qed

lemma preprocess_item_decoder:
  "item_decoder (fst (preprocess_interactions dp df))
     = make_decoder (make_encoder (pd_unique (map item_id (kept_rows dp df))))"
  by (simp add: preprocess_interactions_def kept_rows_def Let_def)

lemma train_item_decoder_inj:
  assumes "map_of (item_decoder (data_processor (fst (train F G s df items feats)))) i = Some x"
    and "map_of (item_decoder (data_processor (fst (train F G s df items feats)))) j = Some x"
  shows "i = j"
  using assms unfolding train_data_processor preprocess_item_decoder
  by (rule decoder_inj[OF distinct_pd_unique])

lemma fresh_seen_of: "seen_of fresh 5 = {1, 2, 3, 4}"
  by (simp add: seen_of_def fresh_seen)

lemma fresh_recs_p: "get_recommendations fresh ''f'' 10 = Inr [rec_p]"
  by (simp add: fresh_recs rec_p_def)

lemma fresh_decoder_1: "map_of (item_decoder (data_processor fresh)) 1 = Some ''q''"
  by code_simp





text \<open>
  C4: on an engine that has been through \<^verbatim>\<open>train\<close>, for a user of the user encoder,
  every record that \<^verbatim>\<open>get_recommendations\<close> returns stems from an item index outside
  the user's set of seen items, and no seen index decodes to the recommended item.
\<close>

theorem C4_no_seen_item_recommended:
  assumes "s' = fst (train F G s df items feats)"
    and "get_recommendations s' uid n = Inr recs"
    and "map_of (user_encoder (data_processor s')) uid = Some u"
    and "r \<in> set recs"
  shows "(\<exists>i. i \<notin> seen_of s' u \<and> map_of (item_decoder (data_processor s')) i = Some (rec_item_id r))
       \<and> (\<forall>j \<in> seen_of s' u. map_of (item_decoder (data_processor s')) j \<noteq> Some (rec_item_id r))"
proof -
  from known_user_recs[OF assms(2,3,4)] obtain cf_recs cb_scores i where
    cf: "cf_candidates (cf_model s') u n (seen_of s' u) = Inr cf_recs" and
    cb: "cb_candidates (cb_model s') (seen_of s' u) = Inr cb_scores" and
    i: "i \<in> fst ` set cf_recs \<union> fst ` set cb_scores" and
    d: "map_of (item_decoder (data_processor s')) i = Some (rec_item_id r)"
    by blast
  have "i \<notin> seen_of s' u"
    using i cf_candidates_keys[OF cf] keys_cb_candidates[OF cb] by blast
  moreover have "j = i" if "map_of (item_decoder (data_processor s')) j = Some (rec_item_id r)" for j
    using that d unfolding assms(1) by (rule train_item_decoder_inj)
  ultimately show ?thesis using d by blast
qed

theorem C4_no_seen_item_recommended_witness:
  "get_recommendations fresh ''f'' 10 = Inr [rec_p] \<and>
   map_of (user_encoder (data_processor fresh)) ''f'' = Some 5 \<and>
   seen_of fresh 5 = {1, 2, 3, 4} \<and>
   map_of (item_decoder (data_processor fresh)) 1 \<noteq> Some (rec_item_id rec_p)"
proof -
  have "\<forall>j \<in> seen_of fresh 5. map_of (item_decoder (data_processor fresh)) j \<noteq> Some (rec_item_id rec_p)"
    using C4_no_seen_item_recommended[OF fresh_def fresh_recs_p fresh_user, of rec_p] by simp
  then show ?thesis
    using fresh_recs_p fresh_user fresh_seen_of by simp
qed

subsection \<open>Cold start\<close>

lemma encode_row_fields:
  "user_idx (encode_row dp r) = map_of (user_encoder dp) (user_id r)"
  "item_idx (encode_row dp r) = map_of (item_encoder dp) (item_id r)"
  "rating (encode_row dp r) = rating r"
  by (simp_all add: encode_row_def interaction.defs encoded.defs)

lemma preprocess_rows:
  "ef_rows (snd (preprocess_interactions dp df))
     = map (encode_row (fst (preprocess_interactions dp df))) (kept_rows dp df)"
  by (simp add: preprocess_interactions_def kept_rows_def Let_def)

lemma preprocess_has_rating:
  "ef_has_rating (snd (preprocess_interactions dp df)) = has_rating df"
  by (simp add: preprocess_interactions_def Let_def)

lemma length_make_encoder: "length (make_encoder us) = length us"
  by (simp add: make_encoder_zip)

lemma matrix_entry_kept:
  assumes "r \<in> set (kept_rows dp df)"
  shows "matrix_entry hr (encode_row (fst (preprocess_interactions dp df)) r)
    = Inr (first_occurrence (pd_unique (map user_id (kept_rows dp df))) (user_id r),
           first_occurrence (pd_unique (map item_id (kept_rows dp df))) (item_id r),
           if hr then rating r else 1)"
proof -
  have u: "user_id r \<in> set (pd_unique (map user_id (kept_rows dp df)))"
    and i: "item_id r \<in> set (pd_unique (map item_id (kept_rows dp df)))"
    using assms by (simp_all add: set_pd_unique)
  show ?thesis
    by (simp add: encode_row_fields preprocess_user_encoder preprocess_item_encoder
        map_of_make_encoder[OF u] map_of_make_encoder[OF i])
qed

lemma create_interaction_matrix_ok:
  "\<exists>es. create_interaction_matrix (fst (preprocess_interactions dp df))
            (snd (preprocess_interactions dp df))
        = Inr \<lparr>n_rows = length (user_encoder (fst (preprocess_interactions dp df))),
               n_cols = length (item_encoder (fst (preprocess_interactions dp df))),
               entries = es\<rparr>"
proof -
  let ?dp = "fst (preprocess_interactions dp df)"
  let ?us = "pd_unique (map user_id (kept_rows dp df))"
  let ?is = "pd_unique (map item_id (kept_rows dp df))"
  let ?g = "\<lambda>r. (first_occurrence ?us (user_id r), first_occurrence ?is (item_id r),
                  if has_rating df then rating r else 1)"
  have "\<forall>r \<in> set (kept_rows dp df).
          (matrix_entry (has_rating df) \<circ> encode_row ?dp) r = Inr (?g r)"
    by (simp add: matrix_entry_kept del: matrix_entry.simps)
  then have sq: "sequence_sum (map (matrix_entry (has_rating df) \<circ> encode_row ?dp) (kept_rows dp df))
            = Inr (map ?g (kept_rows dp df))"
    by (rule sequence_sum_all_Inr)
  have bound: "\<forall>(u, i, v) \<in> set (map ?g (kept_rows dp df)).
                 u < length (user_encoder ?dp) \<and> i < length (item_encoder ?dp)"
    by (auto simp: preprocess_user_encoder preprocess_item_encoder length_make_encoder
        set_pd_unique intro!: first_occurrence_less)
  show ?thesis
    using sq bound
    by (simp add: create_interaction_matrix_def preprocess_rows preprocess_has_rating Let_def)
qed

lemma train_interaction_matrix:
  "\<exists>mat. interaction_matrix (fst (train F G s df items feats)) = Some mat \<and>
     n_cols mat = length (item_encoder (data_processor (fst (train F G s df items feats))))"
proof -
  obtain es where
    "create_interaction_matrix (fst (preprocess_interactions (data_processor s) df))
            (snd (preprocess_interactions (data_processor s) df))
        = Inr \<lparr>n_rows = length (user_encoder (fst (preprocess_interactions (data_processor s) df))),
               n_cols = length (item_encoder (fst (preprocess_interactions (data_processor s) df))),
               entries = es\<rparr>"
    using create_interaction_matrix_ok by blast
  then show ?thesis
    by (auto simp: train_def Let_def split: prod.splits sum.splits)
qed

lemma length_column_sums: "length (column_sums m) = n_cols m"
  by (simp add: column_sums_def)

lemma set_np_argsort: "set (np_argsort xs) = {0..<length xs}"
  by (simp add: np_argsort_def)

lemma distinct_np_argsort: "distinct (np_argsort xs)"
  by (simp add: np_argsort_def)

lemma length_np_argsort: "length (np_argsort xs) = length xs"
  by (simp add: np_argsort_def)

lemma sorted_np_argsort: "sorted (map (\<lambda>i. xs ! i) (np_argsort xs))"
  by (simp add: np_argsort_def)

lemma descending_ranking:
  "sorted_wrt (\<ge>) (map (\<lambda>i. xs ! i) (rev (np_argsort xs)))"
  using sorted_np_argsort[of xs] by (simp add: rev_map[symmetric] sorted_wrt_rev)

lemma sorted_wrt_py_take: "sorted_wrt P xs \<Longrightarrow> sorted_wrt P (py_take n xs)"
  by (simp add: py_take_def sorted_wrt_take)

lemma map_py_take: "map f (py_take n xs) = py_take n (map f xs)"
  by (simp add: py_take_def take_map)

lemma length_py_take_nonneg: "0 \<le> n \<Longrightarrow> length (py_take n xs) = min (nat n) (length xs)"
  by (simp add: py_take_def min_def)


lemma py_take_is_take: "\<exists>k. py_take n xs = take k xs"
  by (auto simp: py_take_def)

lemma popular_items_ok:
  assumes "interaction_matrix s = Some mat"
    and "item_decoder (data_processor s) = make_decoder (make_encoder its)"
    and "n_cols mat = length its"
  shows "get_popular_items s n
     = Inr (map (popular_rec its (column_sums mat))
              (py_take n (rev (np_argsort (column_sums mat)))))"
proof -
  let ?pop = "column_sums mat"
  have "\<forall>idx \<in> set (py_take n (rev (np_argsort ?pop))).
          format_popular (data_processor s) ?pop idx = Inr (popular_rec its ?pop idx)"
  proof
    fix idx assume "idx \<in> set (py_take n (rev (np_argsort ?pop)))"
    then have "idx \<in> set (rev (np_argsort ?pop))"
      by (rule set_py_take[THEN subsetD])
    then have "idx < length its"
      using assms(3) by (simp add: set_np_argsort length_column_sums)
    then show "format_popular (data_processor s) ?pop idx = Inr (popular_rec its ?pop idx)"
      by (simp add: format_popular_def assms(2) map_of_decoder_nth popular_rec_def)
  qed
  then have "sequence_sum (map (format_popular (data_processor s) ?pop)
                 (py_take n (rev (np_argsort ?pop))))
           = Inr (map (popular_rec its ?pop) (py_take n (rev (np_argsort ?pop))))"
    by (rule sequence_sum_all_Inr)
  then show ?thesis
    by (simp add: get_popular_items_def assms(1) Let_def)
qed

lemma ranking_top:
  assumes "a \<in> set (take k (rev (np_argsort pop)))" "j < length pop"
    "j \<notin> set (take k (rev (np_argsort pop)))"
  shows "pop ! j \<le> pop ! a"
proof -
  let ?r = "rev (np_argsort pop)"
  have "j \<in> set ?r" using assms(2) by (simp add: set_np_argsort)
  then have "j \<in> set (take k ?r) \<union> set (drop k ?r)"
    by (simp only: set_append[symmetric] append_take_drop_id)
  then have j: "j \<in> set (drop k ?r)" using assms(3) by simp
  have "sorted_wrt (\<ge>) (map (\<lambda>i. pop ! i) (take k ?r @ drop k ?r))"
    using descending_ranking[of pop] by simp
  then have "\<forall>x \<in> set (take k ?r). \<forall>y \<in> set (drop k ?r). pop ! x \<ge> pop ! y"
    by (simp only: map_append sorted_wrt_append set_map) blast
  then show ?thesis using assms(1) j by blast
qed

lemma scenario_engine_trained: "is_trained scenario_engine"
  by code_simp

lemma scenario_engine_unknown: "map_of (user_encoder (data_processor scenario_engine)) ''u_unknown'' = None"
  by code_simp

lemma scenario_engine_popular:
  "get_recommendations scenario_engine ''u_unknown'' 2 =
     Inr [\<lparr>rec_item_id = ''i1'', score = 9, cf_score = 0, cb_score = 0, rec_method = ''popular''\<rparr>,
          \<lparr>rec_item_id = ''i2'', score = 3, cf_score = 0, cb_score = 0, rec_method = ''popular''\<rparr>]"
  by code_simp

text \<open>
  C5: on a trained engine, for a \<open>user_id\<close> that is not in the user encoder,
  \<^verbatim>\<open>get_recommendations\<close> returns a list (for \<open>n \<ge> 0\<close>: of \<open>n\<close> records, or of all
  items if there are fewer) whose scores descend; every record has \<open>cf_score = 0\<close>,
  \<open>cb_score = 0\<close>, method \<open>popular\<close> and as score the column sum of its item in the
  interaction matrix; and no item left out has a larger column sum than a returned one.
\<close>

theorem C5_cold_start_popular:
  assumes "s' = fst (train F G s df items feats)"
    and "is_trained s'"
    and "map_of (user_encoder (data_processor s')) uid = None"
  shows "\<exists>recs mat.
      get_recommendations s' uid n = Inr recs \<and> interaction_matrix s' = Some mat \<and>
      (0 \<le> n \<longrightarrow> length recs = min (nat n) (n_cols mat)) \<and>
      sorted_wrt (\<ge>) (map score recs) \<and>
      (\<forall>r \<in> set recs.
         cf_score r = 0 \<and> cb_score r = 0 \<and> rec_method r = ''popular'' \<and>
         (\<exists>j < n_cols mat.
            map_of (item_decoder (data_processor s')) j = Some (rec_item_id r) \<and>
            score r = column_sums mat ! j)) \<and>
      (\<forall>j < n_cols mat.
         (\<forall>r \<in> set recs. map_of (item_decoder (data_processor s')) j \<noteq> Some (rec_item_id r))
           \<longrightarrow> (\<forall>r \<in> set recs. column_sums mat ! j \<le> score r))"
proof -
  let ?its = "pd_unique (map item_id (kept_rows (data_processor s) df))"
  obtain mat where mat: "interaction_matrix s' = Some mat"
    and cols: "n_cols mat = length (item_encoder (data_processor s'))"
    using train_interaction_matrix[of F G s df items feats] unfolding assms(1) by blast
  have dec: "item_decoder (data_processor s') = make_decoder (make_encoder ?its)"
    unfolding assms(1) by (simp add: train_data_processor preprocess_item_decoder)
  have len: "n_cols mat = length ?its"
    using cols unfolding assms(1)
    by (simp add: train_data_processor preprocess_item_encoder length_make_encoder)
  let ?pop = "column_sums mat"
  let ?top = "py_take n (rev (np_argsort ?pop))"
  let ?recs = "map (popular_rec ?its ?pop) ?top"
  have lp: "length ?pop = length ?its" using len by (simp add: length_column_sums)
  have top_lt: "idx < length ?its" if "idx \<in> set ?top" for idx
  proof -
    from that have "idx \<in> set (rev (np_argsort ?pop))" by (rule set_py_take[THEN subsetD])
    then show ?thesis using lp by (simp add: set_np_argsort)
  qed
  have g: "get_recommendations s' uid n = Inr ?recs"
    using assms(2,3) popular_items_ok[OF mat dec len]
    by (simp add: get_recommendations_def)
  have l: "0 \<le> n \<longrightarrow> length ?recs = min (nat n) (n_cols mat)"
    by (simp add: length_py_take_nonneg length_np_argsort length_column_sums)
  have "map score ?recs = py_take n (map (\<lambda>i. ?pop ! i) (rev (np_argsort ?pop)))"
    by (simp add: map_py_take[symmetric] popular_rec_def comp_def)
  then have srt: "sorted_wrt (\<ge>) (map score ?recs)"
    using sorted_wrt_py_take[OF descending_ranking[of ?pop], of n] by simp
  have each: "\<forall>r \<in> set ?recs.
         cf_score r = 0 \<and> cb_score r = 0 \<and> rec_method r = ''popular'' \<and>
         (\<exists>j < n_cols mat.
            map_of (item_decoder (data_processor s')) j = Some (rec_item_id r) \<and>
            score r = ?pop ! j)"
  proof
    fix r assume "r \<in> set ?recs"
    then obtain idx where idx: "idx \<in> set ?top" and r: "r = popular_rec ?its ?pop idx"
      by auto
    have "idx < n_cols mat" using top_lt[OF idx] len by simp
    moreover have "map_of (item_decoder (data_processor s')) idx = Some (rec_item_id r)"
      unfolding dec r using top_lt[OF idx] by (simp add: map_of_decoder_nth popular_rec_def)
    moreover have "score r = ?pop ! idx" unfolding r by (simp add: popular_rec_def)
    ultimately show "cf_score r = 0 \<and> cb_score r = 0 \<and> rec_method r = ''popular'' \<and>
         (\<exists>j < n_cols mat.
            map_of (item_decoder (data_processor s')) j = Some (rec_item_id r) \<and>
            score r = ?pop ! j)"
      unfolding r by (auto simp: popular_rec_def)
  qed
  have top: "\<forall>j < n_cols mat.
         (\<forall>r \<in> set ?recs. map_of (item_decoder (data_processor s')) j \<noteq> Some (rec_item_id r))
           \<longrightarrow> (\<forall>r \<in> set ?recs. ?pop ! j \<le> score r)"
  proof (intro allI impI ballI)
    fix j r
    assume j: "j < n_cols mat"
      and no: "\<forall>r \<in> set ?recs. map_of (item_decoder (data_processor s')) j \<noteq> Some (rec_item_id r)"
      and "r \<in> set ?recs"
    then obtain idx where idx: "idx \<in> set ?top" and r: "r = popular_rec ?its ?pop idx"
      by auto
    obtain k where k: "?top = take k (rev (np_argsort ?pop))"
      using py_take_is_take by blast
    have "j \<notin> set ?top"
    proof
      assume "j \<in> set ?top"
      then have "popular_rec ?its ?pop j \<in> set ?recs" by simp
      moreover have "map_of (item_decoder (data_processor s')) j
          = Some (rec_item_id (popular_rec ?its ?pop j))"
        unfolding dec using j len by (simp add: map_of_decoder_nth popular_rec_def)
      ultimately show False using no by blast
    qed
    then have "?pop ! j \<le> ?pop ! idx"
      using idx j unfolding k by (intro ranking_top) (simp_all add: length_column_sums)
    then show "?pop ! j \<le> score r" unfolding r by (simp add: popular_rec_def)
  qed
  from g mat l srt each top show ?thesis by blast
qed


theorem C5_cold_start_popular_witness:
  "is_trained scenario_engine \<and>
   map_of (user_encoder (data_processor scenario_engine)) ''u_unknown'' = None \<and>
   (\<exists>recs mat.
      get_recommendations scenario_engine ''u_unknown'' 2 = Inr recs \<and>
      recs = [\<lparr>rec_item_id = ''i1'', score = 9, cf_score = 0, cb_score = 0, rec_method = ''popular''\<rparr>,
          \<lparr>rec_item_id = ''i2'', score = 3, cf_score = 0, cb_score = 0, rec_method = ''popular''\<rparr>] \<and>
      interaction_matrix scenario_engine = Some mat \<and>
      ((0::int) \<le> 2 \<longrightarrow> length recs = min (nat 2) (n_cols mat)) \<and>
      sorted_wrt (\<ge>) (map score recs) \<and>
      (\<forall>r \<in> set recs.
         cf_score r = 0 \<and> cb_score r = 0 \<and> rec_method r = ''popular'' \<and>
         (\<exists>j < n_cols mat.
            map_of (item_decoder (data_processor scenario_engine)) j = Some (rec_item_id r) \<and>
            score r = column_sums mat ! j)) \<and>
      (\<forall>j < n_cols mat.
         (\<forall>r \<in> set recs.
            map_of (item_decoder (data_processor scenario_engine)) j \<noteq> Some (rec_item_id r))
           \<longrightarrow> (\<forall>r \<in> set recs. column_sums mat ! j \<le> score r)))"
proof -
  from C5_cold_start_popular[OF scenario_engine_def scenario_engine_trained
      scenario_engine_unknown, of 2]
  obtain recs mat where
    g: "get_recommendations scenario_engine ''u_unknown'' 2 = Inr recs" and
    rest: "interaction_matrix scenario_engine = Some mat \<and>
      ((0::int) \<le> 2 \<longrightarrow> length recs = min (nat 2) (n_cols mat)) \<and>
      sorted_wrt (\<ge>) (map score recs) \<and>
      (\<forall>r \<in> set recs.
         cf_score r = 0 \<and> cb_score r = 0 \<and> rec_method r = ''popular'' \<and>
         (\<exists>j < n_cols mat.
            map_of (item_decoder (data_processor scenario_engine)) j = Some (rec_item_id r) \<and>
            score r = column_sums mat ! j)) \<and>
      (\<forall>j < n_cols mat.
         (\<forall>r \<in> set recs.
            map_of (item_decoder (data_processor scenario_engine)) j \<noteq> Some (rec_item_id r))
           \<longrightarrow> (\<forall>r \<in> set recs. column_sums mat ! j \<le> score r))"
    by blast
  have "recs = [\<lparr>rec_item_id = ''i1'', score = 9, cf_score = 0, cb_score = 0, rec_method = ''popular''\<rparr>,
          \<lparr>rec_item_id = ''i2'', score = 3, cf_score = 0, cb_score = 0, rec_method = ''popular''\<rparr>]"
    using g scenario_engine_popular by simp
  with g rest scenario_engine_trained scenario_engine_unknown show ?thesis by blast
qed



subsection \<open>Evaluation\<close>

lemma test_clean_known_rows: "test_clean s t = known_rows s t"
  by (simp add: test_clean_def known_rows_def map_of_eq_None_iff)

lemma predict_nonneg_index:
  assumes "fitted cf"
  shows "predict cf (int u) (int i) = Inr (cf_prediction cf u i)"
proof (cases "u < length (user_factors cf) \<and> i < length (item_factors cf)")
  case True
  then show ?thesis using predict_in_range[OF assms, of u i] by (simp add: cf_prediction_def)
next
  case False
  then have "int u \<ge> int (length (user_factors cf)) \<or> int i \<ge> int (length (item_factors cf))"
    by auto
  then have "predict cf (int u) (int i) = Inr (global_mean cf)"
    by (simp add: predict_unfold)
  moreover have "cf_prediction cf u i = global_mean cf"
    using False unfolding cf_prediction_def by (simp only: if_False)
  ultimately show ?thesis by simp
qed

lemma evaluate_row_known:
  assumes "cf_model s = Some cf" "fitted cf" "r \<in> set (known_rows s t)"
  shows "evaluate_row s (has_rating t) r = Inr (prediction_pair s cf t r)"
proof -
  from assms(3) obtain u i where
    u: "map_of (user_encoder (data_processor s)) (user_id r) = Some u" and
    i: "map_of (item_encoder (data_processor s)) (item_id r) = Some i"
    by (auto simp: known_rows_def)
  show ?thesis
    by (simp add: evaluate_row_def u i assms(1) predict_nonneg_index[OF assms(2)]
        bind_sum_def prediction_pair_def)
qed

lemma scenario_engine_cf: "cf_model scenario_engine = Some scenario_cf"
  by code_simp

lemma scenario_cf_fitted: "fitted scenario_cf"
  by (simp add: fitted_def scenario_cf_def)

lemma scenario_unknown_rows: "known_rows scenario_engine test_unknown = []"
  by code_simp

lemma scenario_known_rows: "known_rows scenario_engine test_known = [mk_row ''u2'' ''i2'' 0]"
  by code_simp

lemma scenario_pair:
  "prediction_pair scenario_engine scenario_cf test_known (mk_row ''u2'' ''i2'' 0) = (5/2, 1)"
  by code_simp

lemma metrics_single: "metrics_of [(5/2, 1)] = \<lparr>rmse = Finite (3/2), mae = Finite (3/2)\<rparr>"
  by (simp add: metrics_of_def power2_eq_square real_sqrt_mult[symmetric] real_sqrt_divide)

text \<open>
  C9: on a trained engine whose latent factor model is fitted, \<^verbatim>\<open>evaluate\<close> raises no
  error. It keeps the test rows whose user and item are both in the trained encoders;
  when none remains it returns the sentinel \<open>{rmse: +infinity, mae: +infinity}\<close>;
  otherwise the metrics are those of the pairs (prediction of the latent factor model,
  rating of the row or 1 when the test set has no ratings) of the rows kept.
\<close>

theorem C9_evaluate_known_rows_or_sentinel:
  assumes "is_trained s" and "cf_model s = Some cf" and "fitted cf"
  shows "evaluate s t =
     Inr (if known_rows s t = [] then \<lparr>rmse = PosInf, mae = PosInf\<rparr>
          else metrics_of (map (prediction_pair s cf t) (known_rows s t)))"
proof -
  have "\<forall>r \<in> set (known_rows s t).
          evaluate_row s (has_rating t) r = Inr (prediction_pair s cf t r)"
    using evaluate_row_known[OF assms(2,3)] by blast
  then have "sequence_sum (map (evaluate_row s (has_rating t)) (known_rows s t))
      = Inr (map (prediction_pair s cf t) (known_rows s t))"
    by (rule sequence_sum_all_Inr)
  then show ?thesis
    using assms(1) by (simp add: evaluate_def test_clean_known_rows bind_sum_def Let_def)
qed

theorem C9_evaluate_known_rows_or_sentinel_witness:
  "is_trained scenario_engine \<and> cf_model scenario_engine = Some scenario_cf \<and>
   fitted scenario_cf \<and>
   evaluate scenario_engine test_unknown = Inr \<lparr>rmse = PosInf, mae = PosInf\<rparr> \<and>
   evaluate scenario_engine test_known = Inr \<lparr>rmse = Finite (3/2), mae = Finite (3/2)\<rparr>"
  using C9_evaluate_known_rows_or_sentinel[OF scenario_engine_trained scenario_engine_cf
      scenario_cf_fitted, of test_unknown]
    C9_evaluate_known_rows_or_sentinel[OF scenario_engine_trained scenario_engine_cf
      scenario_cf_fitted, of test_known]
    scenario_engine_trained scenario_engine_cf scenario_cf_fitted
  by (simp add: scenario_unknown_rows scenario_known_rows scenario_pair metrics_single)

end
